theory Spec2Isabelle
  imports
    Main
    "HOL-Library.Word"
    "HOL-Library.Signed_Division"
    "HOL-Library.Sublist"
    "HOL-Library.Multiset"
begin

section \<open>Values of the Go libraries the handler works with\<close>

type_synonym uint64 = "64 word"
type_synonym int64 = "64 word"

text \<open>
  The decimal digits of a natural number, most significant first, as
  \<^verbatim>\<open>strconv.FormatUint(n, 10)\<close> and the verb \<^verbatim>\<open>%v\<close> print them: each digit is
  read from the table \<^verbatim>\<open>digits\<close> of \<^verbatim>\<open>strconv\<close>.
\<close>

definition digits :: string where
  "digits = ''0123456789''"

fun decimal :: "nat \<Rightarrow> string" where
  "decimal n =
     (if n < 10 then [digits ! n]
      else decimal (n div 10) @ [digits ! (n mod 10)])"

declare decimal.simps [simp del]

text \<open>\<^verbatim>\<open>strconv.FormatUint(groupKey, 10)\<close>: the handler only calls it with base 10.\<close>

definition FormatUint :: "uint64 \<Rightarrow> string" where
  "FormatUint n = decimal (unat n)"

text \<open>The verb \<^verbatim>\<open>%v\<close> of \<^verbatim>\<open>fmt\<close> at a Go \<^verbatim>\<open>int\<close>.\<close>

definition format_int :: "int \<Rightarrow> string" where
  "format_int i = (if i < 0 then ''-'' @ decimal (nat (- i)) else decimal (nat i))"

text \<open>Reading a decimal string back: the value \<^verbatim>\<open>strconv.ParseUint\<close> would compute.\<close>

definition digit_value :: "char \<Rightarrow> nat" where
  "digit_value c = of_char c - 48"

definition parse_decimal :: "string \<Rightarrow> nat" where
  "parse_decimal s = foldl (\<lambda>acc c. 10 * acc + digit_value c) 0 s"

text \<open>\<^verbatim>\<open>strings.Join(elems, sep)\<close>.\<close>

fun Join :: "string list \<Rightarrow> string \<Rightarrow> string" where
  "Join [] sep = []"
| "Join [x] sep = x"
| "Join (x # y # ys) sep = x @ sep @ Join (y # ys) sep"

text \<open>
  \<^verbatim>\<open>template.KV\<close> is \<^verbatim>\<open>map[string]string\<close>. Indexing a Go map at a key it does not
  hold gives the zero value, the empty string.
\<close>

type_synonym KV = "string \<rightharpoonup> string"

definition index :: "KV \<Rightarrow> string \<Rightarrow> string" where
  "index m k = (case m k of None \<Rightarrow> [] | Some v \<Rightarrow> v)"

text \<open>
  \<^verbatim>\<open>for k, v := range m\<close> visits every entry of the map once, in an order the Go
  runtime chooses anew at each loop. The order is an input of the model: a list of keys
  \<open>ks\<close> that \<open>enumerates\<close> the map; the loop then sees the pairs \<open>range_KV m ks\<close>.
\<close>

definition enumerates :: "KV \<Rightarrow> string list \<Rightarrow> bool" where
  "enumerates m ks = (distinct ks \<and> set ks = dom m)"

definition range_KV :: "KV \<Rightarrow> string list \<Rightarrow> (string \<times> string) list" where
  "range_KV m ks = map (\<lambda>k. (k, index m k)) ks"

section \<open>The inbound message: \<^verbatim>\<open>notify.WebhookMessage\<close>\<close>

text \<open>
  The types of the Alertmanager library, with the fields the handler reads.
  \<^verbatim>\<open>StartsAt\<close> holds the value of \<^verbatim>\<open>StartsAt.Unix()\<close>. \<^verbatim>\<open>Alerts\<close> is a slice:
  \<open>None\<close> is the nil slice (JSON \<^verbatim>\<open>null\<close> or no member at all).
  \<^verbatim>\<open>WebhookMessage\<close> embeds a pointer \<^verbatim>\<open>*template.Data\<close>, which the handler tests as
  \<^verbatim>\<open>wm.Data == nil\<close>: \<open>None\<close> is the nil pointer, left by a body that has none of
  the members of \<^verbatim>\<open>template.Data\<close>. The status, the alerts, the group labels and the
  external URL are fields of the embedded value; the group key is a field of the message.
\<close>

record Alert =
  Labels :: KV
  Annotations :: KV
  StartsAt :: int64
  GeneratorURL :: string

record template_Data =
  Status :: string
  Alerts :: "Alert list option"
  GroupLabels :: KV
  ExternalURL :: string

record WebhookMessage =
  Data :: "template_Data option"
  GroupKey :: uint64

text \<open>Ranging over a nil slice runs the loop body no times.\<close>

definition range_slice :: "'a list option \<Rightarrow> 'a list" where
  "range_slice s = (case s of None \<Rightarrow> [] | Some xs \<Rightarrow> xs)"

text \<open>
  The request as the handler sees it: what \<^verbatim>\<open>decoder.Decode(&wm)\<close> made of the body
  (\<open>Inl\<close> the text of its error) and the query parameters of the URL
  (\<^verbatim>\<open>url.Values\<close>, a map from names to lists of values).
\<close>

record Request =
  Body :: "string + WebhookMessage"
  Query :: "string \<rightharpoonup> string list"

section \<open>The outbound message and its response\<close>

text \<open>
  The two structs of the handler. The field \<^verbatim>\<open>EntityID\<close> of the response is named
  \<open>ResponseEntityID\<close> here, apart from the one of the message.
\<close>

record victoropsResponse =
  Result :: string
  ResponseEntityID :: string
  Message :: string

record victoropsPost =
  MessageType :: string
  EntityID :: string
  Timestamp :: int64
  StateStartTime :: int64
  StateMessage :: string
  MonitoringTool :: string
  EntityDisplayName :: string
  AckMessage :: string
  AckAuthor :: string

text \<open>
  \<^verbatim>\<open>json.Marshal(vp)\<close>, up to the text of the encoding: the members of the JSON object in
  the order of the struct's fields, under the names of the struct tags. A field tagged
  \<^verbatim>\<open>omitempty\<close> is left out when it holds its zero value. Encoding a struct of strings
  and integers has no error, so the result is always \<open>Inr\<close>.
\<close>

datatype json = JString string | JNumber int

type_synonym json_object = "(string \<times> json) list"

definition omitempty_string :: "string \<Rightarrow> string \<Rightarrow> json_object" where
  "omitempty_string name s = (if s = [] then [] else [(name, JString s)])"

definition omitempty_int64 :: "string \<Rightarrow> int64 \<Rightarrow> json_object" where
  "omitempty_int64 name n = (if n = 0 then [] else [(name, JNumber (sint n))])"

definition encoding :: "victoropsPost \<Rightarrow> json_object" where
  "encoding vp =
     ([(''message_type'', JString (MessageType vp))]
      @ omitempty_string ''entity_id'' (EntityID vp)
      @ omitempty_int64 ''timestamp'' (Timestamp vp)
      @ omitempty_int64 ''state_start_time'' (StateStartTime vp)
      @ omitempty_string ''state_message'' (StateMessage vp)
      @ omitempty_string ''monitoring_tool'' (MonitoringTool vp)
      @ omitempty_string ''entity_display_name'' (EntityDisplayName vp)
      @ omitempty_string ''ack_msg'' (AckMessage vp)
      @ omitempty_string ''ack_author'' (AckAuthor vp))"

definition Marshal :: "victoropsPost \<Rightarrow> string + json_object" where
  "Marshal vp = Inr (encoding vp)"

text \<open>The member of a JSON object under a name.\<close>

definition json_member :: "json_object \<Rightarrow> string \<Rightarrow> json option" where
  "json_member obj name = map_of obj name"

section \<open>The world around one request\<close>

text \<open>
  What \<^verbatim>\<open>http.Post\<close> returns: an error, or a response with its status code and with
  what \<^verbatim>\<open>decoder.Decode(&vr)\<close> makes of its body, the error (if any) and the value
  of \<^verbatim>\<open>vr\<close> afterwards.
\<close>

record Response =
  StatusCode :: int
  DecodeErr :: "string option"
  Decoded :: victoropsResponse

datatype post_result = PostError string | PostResponse Response

text \<open>
  The environment of one run of the handler: the clock (\<open>Now env i\<close> is
  \<^verbatim>\<open>time.Now().Unix()\<close> at the \<open>i\<close>-th message built), the order of each
  \<^verbatim>\<open>range\<close> over a map (\<open>Keys env n m\<close> for the \<open>n\<close>-th such loop, over
  the map \<open>m\<close>), the method \<^verbatim>\<open>Values()\<close> of the group labels, and the outcome of the
  \<open>i\<close>-th call of \<^verbatim>\<open>http.Post\<close>.
\<close>

record env =
  Now :: "nat \<Rightarrow> int64"
  Keys :: "nat \<Rightarrow> KV \<Rightarrow> string list"
  Values :: "KV \<Rightarrow> string list"
  Post :: "nat \<Rightarrow> post_result"

text \<open>
  \<^verbatim>\<open>http.ResponseWriter\<close>: the status code sent so far, if any, and the body written.
  The first \<^verbatim>\<open>WriteHeader\<close> sends the status code and later ones change nothing; a
  write before any \<^verbatim>\<open>WriteHeader\<close> sends 200 first. A handler that returns without
  writing anything answers 200.
\<close>

record ResponseWriter =
  sent_status :: "int option"
  written :: string

definition WriteHeader :: "int \<Rightarrow> ResponseWriter \<Rightarrow> ResponseWriter" where
  "WriteHeader c w = (case sent_status w of None \<Rightarrow> w\<lparr>sent_status := Some c\<rparr> | Some _ \<Rightarrow> w)"

definition Fprintf :: "string \<Rightarrow> ResponseWriter \<Rightarrow> ResponseWriter" where
  "Fprintf s w = (WriteHeader 200 w)\<lparr>written := written w @ s\<rparr>"

definition caller_status :: "ResponseWriter \<Rightarrow> int" where
  "caller_status w = (case sent_status w of None \<Rightarrow> 200 | Some c \<Rightarrow> c)"

text \<open>
  One outbound POST, and the events of a run in the order they happen: a request leaves,
  its outcome comes back.
\<close>

record dispatch =
  url :: string
  contentType :: string
  payload :: json_object

datatype event = Sent dispatch | Received post_result

record state =
  rw :: ResponseWriter
  trace :: "event list"

fun dispatches :: "event list \<Rightarrow> dispatch list" where
  "dispatches [] = []"
| "dispatches (Sent d # es) = d # dispatches es"
| "dispatches (Received r # es) = dispatches es"

definition http_Post :: "env \<Rightarrow> nat \<Rightarrow> dispatch \<Rightarrow> state \<Rightarrow> post_result \<times> state" where
  "http_Post env i d st = (Post env i, st\<lparr>trace := trace st @ [Sent d, Received (Post env i)]\<rparr>)"

text \<open>\<^verbatim>\<open>rw.WriteHeader(c)\<close> followed by \<^verbatim>\<open>fmt.Fprintf(rw, ...)\<close> of the text \<open>s\<close>.\<close>

definition respond :: "int \<Rightarrow> string \<Rightarrow> state \<Rightarrow> state" where
  "respond c s st = st\<lparr>rw := Fprintf s (WriteHeader c (rw st))\<rparr>"

section \<open>The handler \<^verbatim>\<open>victorops\<close>\<close>

text \<open>
  The handler is modelled by what it writes to its caller and by the calls of
  \<^verbatim>\<open>http.Post\<close> it makes; its log lines are left out. A step of the handler either
  goes on (\<open>Next\<close>) or executes \<^verbatim>\<open>return\<close> (\<open>Return\<close>), which ends the
  request.
\<close>

datatype control = Next state | Return state

definition victoropsApikeyParam :: string where
  "victoropsApikeyParam = ''api_key''"

definition victoropsRoutingkeyParam :: string where
  "victoropsRoutingkeyParam = ''routing_key''"

text \<open>
  Lines 106 to 113: the first value of a query parameter, the empty string when the
  parameter is missing or has no value.
\<close>

definition query_param :: "(string \<rightharpoonup> string list) \<Rightarrow> string \<Rightarrow> string" where
  "query_param q name = (case q name of Some (v # vs) \<Rightarrow> v | _ \<Rightarrow> [])"

definition endpoint :: "string \<Rightarrow> string \<Rightarrow> string" where
  "endpoint apiKey routingKey =
     ''https://alert.victorops.com/integrations/generic/20131114/alert/'' @ apiKey @ ''/'' @ routingKey"

text \<open>Lines 131 to 135: the message type of an alert.\<close>

definition messageType :: "Alert \<Rightarrow> string" where
  "messageType alert =
     (if index (Labels alert) ''victorops_message_type'' \<noteq> []
      then index (Labels alert) ''victorops_message_type''
      else ''CRITICAL'')"

text \<open>
  Lines 137 to 145: the state message, appended to entry by entry. \<open>ka\<close> and \<open>kl\<close>
  are the orders in which the two loops visit the annotations and the labels.
\<close>

definition append_entry :: "string \<Rightarrow> string \<times> string \<Rightarrow> string" where
  "append_entry s kv = s @ fst kv @ '': '' @ snd kv @ ''\<newline>''"

definition stateMessage :: "string list \<Rightarrow> string list \<Rightarrow> Alert \<Rightarrow> string \<Rightarrow> string" where
  "stateMessage ka kl alert externalURL =
     (let s0 = [];
          s1 = foldl append_entry s0 (range_KV (Annotations alert) ka);
          s2 = foldl append_entry s1 (range_KV (Labels alert) kl);
          s3 = s2 @ ''Prometheus: '' @ GeneratorURL alert @ ''\<newline>''
      in s3 @ ''Alertmanager: '' @ externalURL)"

text \<open>Lines 148 to 156: the message of the \<open>i\<close>-th alert of a firing group.\<close>

definition firing_post ::
  "env \<Rightarrow> uint64 \<Rightarrow> string \<Rightarrow> string \<Rightarrow> nat \<Rightarrow> Alert \<Rightarrow> victoropsPost" where
  "firing_post env groupKey displayName externalURL i alert =
     \<lparr>MessageType = messageType alert,
      EntityID = FormatUint groupKey,
      Timestamp = Now env i,
      StateStartTime = StartsAt alert,
      StateMessage =
        stateMessage (Keys env (2 * i) (Annotations alert)) (Keys env (2 * i + 1) (Labels alert))
          alert externalURL,
      MonitoringTool = ''Prometheus Alertmanager'',
      EntityDisplayName = displayName,
      AckMessage = [],
      AckAuthor = []\<rparr>"

text \<open>
  Lines 158 to 194: what the firing branch does with the result \<open>enc\<close> of
  \<^verbatim>\<open>json.Marshal\<close> for the \<open>i\<close>-th alert. A response body that does not decode is
  reported in the body of the answer and nothing more (the \<^verbatim>\<open>WriteHeader\<close> of line 176
  is commented out, and there is no \<^verbatim>\<open>return\<close>).
\<close>

definition firing_send ::
  "env \<Rightarrow> string \<Rightarrow> string \<Rightarrow> nat \<Rightarrow> string + json_object \<Rightarrow> state \<Rightarrow> control" where
  "firing_send env apiKey routingKey i enc st =
     (case enc of
        Inr b \<Rightarrow>
          (case http_Post env i
                  \<lparr>url = endpoint apiKey routingKey, contentType = ''application/json'', payload = b\<rparr> st of
             (PostError err, st1) \<Rightarrow>
               Return (respond 502 (''Failed post to VictorOps REST api: '' @ err) st1)
           | (PostResponse resp, st1) \<Rightarrow>
               (let vr = Decoded resp;
                    st2 = (case DecodeErr resp of
                             Some err \<Rightarrow>
                               st1\<lparr>rw := Fprintf (''Could not decode VictorOps response body: '' @ err) (rw st1)\<rparr>
                           | None \<Rightarrow> st1)
                in if StatusCode resp sdiv 100 \<noteq> 2
                   then Return (respond 502
                          (''Unexpected status code '' @ format_int (StatusCode resp)
                             @ '' from VictorOps: '' @ Message vr) st2)
                   else Next st2))
      | Inl err \<Rightarrow> Return (respond 500 (''Failed to marshall victoropsPost: '' @ err) st))"

text \<open>Lines 130 to 195: the loop over the alerts, \<open>i\<close> the index of the next one.\<close>

fun firing_loop ::
  "env \<Rightarrow> string \<Rightarrow> string \<Rightarrow> uint64 \<Rightarrow> string \<Rightarrow> string \<Rightarrow> nat \<Rightarrow> Alert list \<Rightarrow> state \<Rightarrow> state" where
  "firing_loop env apiKey routingKey groupKey displayName externalURL i [] st = st"
| "firing_loop env apiKey routingKey groupKey displayName externalURL i (alert # alerts) st =
     (case firing_send env apiKey routingKey i
             (Marshal (firing_post env groupKey displayName externalURL i alert)) st of
        Return st' \<Rightarrow> st'
      | Next st' \<Rightarrow>
          firing_loop env apiKey routingKey groupKey displayName externalURL (Suc i) alerts st')"

text \<open>
  Lines 197 to 204: the message of a resolved group. \<^verbatim>\<open>StateStartTime\<close> is not set and
  holds its zero value.
\<close>

definition resolved_post :: "env \<Rightarrow> uint64 \<Rightarrow> string \<Rightarrow> victoropsPost" where
  "resolved_post env groupKey displayName =
     \<lparr>MessageType = ''RECOVERY'',
      EntityID = FormatUint groupKey,
      Timestamp = Now env 0,
      StateStartTime = 0,
      StateMessage = ''Entity recovered'',
      MonitoringTool = ''Prometheus Alertmanager'',
      EntityDisplayName = displayName,
      AckMessage = [],
      AckAuthor = []\<rparr>"

text \<open>
  Lines 206 to 243: the same for the resolved branch. Here a response body that does not
  decode ends the request with 502, and the text for an unexpected status code has one
  verb, which prints the message of the response.
\<close>

definition resolved_send ::
  "env \<Rightarrow> string \<Rightarrow> string \<Rightarrow> string + json_object \<Rightarrow> state \<Rightarrow> state" where
  "resolved_send env apiKey routingKey enc st =
     (case enc of
        Inr b \<Rightarrow>
          (case http_Post env 0
                  \<lparr>url = endpoint apiKey routingKey, contentType = ''application/json'', payload = b\<rparr> st of
             (PostError err, st1) \<Rightarrow>
               respond 502 (''Failed post to VictorOps REST api: '' @ err) st1
           | (PostResponse resp, st1) \<Rightarrow>
               (case DecodeErr resp of
                  Some err \<Rightarrow>
                    respond 502 (''Could not decode VictorOps response body: '' @ err) st1
                | None \<Rightarrow>
                    (let vr = Decoded resp
                     in if StatusCode resp sdiv 100 \<noteq> 2
                        then respond 502
                               (''Unexpected status code '' @ Message vr @ '' from VictorOps: '') st1
                        else st1)))
      | Inl err \<Rightarrow> respond 500 (''Failed to marshall victoropsPost: '' @ err) st)"

text \<open>Lines 88 to 250: the handler, from a fresh response writer and an empty trace.\<close>

definition start :: state where
  "start = \<lparr>rw = \<lparr>sent_status = None, written = []\<rparr>, trace = []\<rparr>"

definition victorops :: "env \<Rightarrow> Request \<Rightarrow> state" where
  "victorops env req =
     (case Body req of
        Inl err \<Rightarrow> respond 400 (''Could not decode Alertmanager request body: '' @ err) start
      | Inr wm \<Rightarrow>
          (case Data wm of
             None \<Rightarrow> respond 400 ''Missing fields request body'' start
           | Some d \<Rightarrow>
               (let apiKey = query_param (Query req) victoropsApikeyParam;
                    routingKey = query_param (Query req) victoropsRoutingkeyParam
                in if apiKey = [] \<or> routingKey = []
                   then respond 400
                          (''requires query parameters '' @ [CHR 0x27] @ victoropsApikeyParam @ [CHR 0x27]
                             @ '' and '' @ [CHR 0x27] @ victoropsRoutingkeyParam @ [CHR 0x27]) start
                   else
                     (let status = Status d;
                          groupKey = GroupKey wm;
                          displayName = Join (Values env (GroupLabels d)) '':''
                      in if status = ''firing''
                         then firing_loop env apiKey routingKey groupKey displayName (ExternalURL d) 0
                                (range_slice (Alerts d)) start
                         else if status = ''resolved''
                         then resolved_send env apiKey routingKey
                                (Marshal (resolved_post env groupKey displayName)) start
                         else respond 400 (''Unknown Alertmanager status: '' @ status) start))))"

text \<open>What the caller and the downstream service see of a run.\<close>

definition posts :: "state \<Rightarrow> dispatch list" where
  "posts st = dispatches (trace st)"

definition answer_status :: "state \<Rightarrow> int" where
  "answer_status st = caller_status (rw st)"

definition answer_body :: "state \<Rightarrow> string" where
  "answer_body st = written (rw st)"

section \<open>Vocabulary of the properties\<close>

text \<open>
  The request decoded to the message \<open>wm\<close> with data \<open>d\<close>, and both credentials
  are there.
\<close>

definition valid_credentials :: "Request \<Rightarrow> bool" where
  "valid_credentials req =
     (query_param (Query req) victoropsApikeyParam \<noteq> []
      \<and> query_param (Query req) victoropsRoutingkeyParam \<noteq> [])"

definition inbound :: "Request \<Rightarrow> WebhookMessage \<Rightarrow> template_Data \<Rightarrow> bool" where
  "inbound req wm d = (Body req = Inr wm \<and> Data wm = Some d \<and> valid_credentials req)"

text \<open>
  The firing loop goes on after a dispatch exactly when \<^verbatim>\<open>http.Post\<close> returned a
  response whose status code is 2xx.
\<close>

definition accepted :: "post_result \<Rightarrow> bool" where
  "accepted r = (case r of PostError err \<Rightarrow> False | PostResponse resp \<Rightarrow> StatusCode resp sdiv 100 = 2)"

definition decoded :: "post_result \<Rightarrow> bool" where
  "decoded r = (case r of PostError err \<Rightarrow> False | PostResponse resp \<Rightarrow> DecodeErr resp = None)"

text \<open>
  The number of dispatches of a loop over \<open>n\<close> alerts that starts at index \<open>i\<close>:
  one per alert up to and including the first whose dispatch is not accepted.
\<close>

fun attempts :: "env \<Rightarrow> nat \<Rightarrow> nat \<Rightarrow> nat" where
  "attempts env i 0 = 0"
| "attempts env i (Suc n) = (if accepted (Post env i) then Suc (attempts env (Suc i) n) else 1)"

text \<open>
  What the firing loop writes to the caller after an accepted dispatch: the decode error
  of the response body, if there is one.
\<close>

definition decode_report :: "post_result \<Rightarrow> ResponseWriter \<Rightarrow> ResponseWriter" where
  "decode_report r w =
     (case r of
        PostError e \<Rightarrow> w
      | PostResponse resp \<Rightarrow>
          (case DecodeErr resp of
             None \<Rightarrow> w
           | Some err \<Rightarrow> Fprintf (''Could not decode VictorOps response body: '' @ err) w))"

text \<open>The POST that carries a message.\<close>

definition post_of :: "string \<Rightarrow> string \<Rightarrow> victoropsPost \<Rightarrow> dispatch" where
  "post_of apiKey routingKey vp =
     \<lparr>url = endpoint apiKey routingKey, contentType = ''application/json'', payload = encoding vp\<rparr>"

text \<open>The values the handler computes from the request before it branches on the status.\<close>

definition apiKey_of :: "Request \<Rightarrow> string" where
  "apiKey_of req = query_param (Query req) victoropsApikeyParam"

definition routingKey_of :: "Request \<Rightarrow> string" where
  "routingKey_of req = query_param (Query req) victoropsRoutingkeyParam"

definition displayName_of :: "env \<Rightarrow> template_Data \<Rightarrow> string" where
  "displayName_of env d = Join (Values env (GroupLabels d)) '':''"

definition alerts_of :: "template_Data \<Rightarrow> Alert list" where
  "alerts_of d = range_slice (Alerts d)"

text \<open>The message built for the \<open>k\<close>-th alert of a firing group.\<close>

definition firing_message :: "env \<Rightarrow> WebhookMessage \<Rightarrow> template_Data \<Rightarrow> nat \<Rightarrow> victoropsPost" where
  "firing_message env wm d k =
     firing_post env (GroupKey wm) (displayName_of env d) (ExternalURL d) k (alerts_of d ! k)"

text \<open>
  The entries of the annotations and of the labels of the \<open>k\<close>-th alert, in the order
  in which the two loops of that iteration visit them.
\<close>

definition annotation_entries :: "env \<Rightarrow> template_Data \<Rightarrow> nat \<Rightarrow> (string \<times> string) list" where
  "annotation_entries env d k =
     range_KV (Annotations (alerts_of d ! k)) (Keys env (2 * k) (Annotations (alerts_of d ! k)))"

definition label_entries :: "env \<Rightarrow> template_Data \<Rightarrow> nat \<Rightarrow> (string \<times> string) list" where
  "label_entries env d k =
     range_KV (Labels (alerts_of d ! k)) (Keys env (2 * k + 1) (Labels (alerts_of d ! k)))"

text \<open>One entry of a map as a line of the state message.\<close>

definition entry_line :: "string \<times> string \<Rightarrow> string" where
  "entry_line kv = fst kv @ '': '' @ snd kv @ ''\<newline>''"

text \<open>
  The state message in the words of the specification: the annotation entries, one line
  each, then the label entries, then a line \<^verbatim>\<open>source: <generatorURL>\<close> and a line
  \<^verbatim>\<open>aggregator: <externalURL>\<close>. The last line is left without a line end, as the
  handler leaves its own last line.
\<close>

definition stateMessage_spec ::
  "(string \<times> string) list \<Rightarrow> (string \<times> string) list \<Rightarrow> string \<Rightarrow> string \<Rightarrow> string" where
  "stateMessage_spec annotations labels generatorURL externalURL =
     concat (map entry_line annotations) @ concat (map entry_line labels)
       @ ''source: '' @ generatorURL @ ''\<newline>'' @ ''aggregator: '' @ externalURL"

text \<open>The state message a dispatch carries, if it carries one.\<close>

definition state_message_of :: "dispatch \<Rightarrow> json option" where
  "state_message_of p = json_member (payload p) ''state_message''"

section \<open>Concrete requests and worlds\<close>

definition alert_load :: Alert where
  "alert_load =
     \<lparr>Labels = [''alertname'' \<mapsto> ''HighLoad'', ''victorops_message_type'' \<mapsto> ''WARNING''],
      Annotations = [''summary'' \<mapsto> ''load is high''],
      StartsAt = 1500000000,
      GeneratorURL = ''http://prom/load''\<rparr>"

definition alert_disk :: Alert where
  "alert_disk =
     \<lparr>Labels = [''alertname'' \<mapsto> ''DiskFull''],
      Annotations = Map.empty,
      StartsAt = 1500000060,
      GeneratorURL = ''http://prom/disk''\<rparr>"

definition group_of :: "string \<Rightarrow> Alert list option \<Rightarrow> template_Data" where
  "group_of status alerts =
     \<lparr>Status = status, Alerts = alerts, GroupLabels = [''job'' \<mapsto> ''node''],
      ExternalURL = ''http://am''\<rparr>"

definition message_of :: "string \<Rightarrow> Alert list option \<Rightarrow> WebhookMessage" where
  "message_of status alerts = \<lparr>Data = Some (group_of status alerts), GroupKey = 42\<rparr>"

definition request_of :: "string \<Rightarrow> Alert list option \<Rightarrow> Request" where
  "request_of status alerts =
     \<lparr>Body = Inr (message_of status alerts),
      Query = [''api_key'' \<mapsto> [''key''], ''routing_key'' \<mapsto> [''team'']]\<rparr>"

definition success :: post_result where
  "success = PostResponse
     \<lparr>StatusCode = 200, DecodeErr = None,
      Decoded = \<lparr>Result = ''success'', ResponseEntityID = ''42'', Message = []\<rparr>\<rparr>"

definition failure :: post_result where
  "failure = PostResponse
     \<lparr>StatusCode = 500, DecodeErr = None,
      Decoded = \<lparr>Result = ''failure'', ResponseEntityID = [], Message = ''bad routing key''\<rparr>\<rparr>"

definition garbled :: "int \<Rightarrow> post_result" where
  "garbled c = PostResponse
     \<lparr>StatusCode = c, DecodeErr = Some ''unexpected EOF'',
      Decoded = \<lparr>Result = [], ResponseEntityID = [], Message = []\<rparr>\<rparr>"

text \<open>
  A response with status 500 whose body has a number where the result should be:
  decoding reports the error and still fills in the message.
\<close>

definition half_decoded :: post_result where
  "half_decoded = PostResponse
     \<lparr>StatusCode = 500, DecodeErr = Some ''cannot unmarshal number'',
      Decoded = \<lparr>Result = [], ResponseEntityID = [], Message = ''bad routing key''\<rparr>\<rparr>"

text \<open>
  A world whose maps are visited in the order of the list \<open>order\<close> and whose
  downstream service answers the \<open>i\<close>-th POST with \<open>outcome i\<close>.
\<close>

definition world :: "string list \<Rightarrow> (nat \<Rightarrow> post_result) \<Rightarrow> env" where
  "world order outcome =
     \<lparr>Now = (\<lambda>i. 1500000100),
      Keys = (\<lambda>n m. filter (\<lambda>k. m k \<noteq> None) order),
      Values = (\<lambda>m. map (index m) (filter (\<lambda>k. m k \<noteq> None) [''job''])),
      Post = outcome\<rparr>"

definition forwards :: "string list" where
  "forwards = [''alertname'', ''summary'', ''victorops_message_type'']"

definition backwards :: "string list" where
  "backwards = [''victorops_message_type'', ''summary'', ''alertname'']"

definition world_accepting :: env where
  "world_accepting = world forwards (\<lambda>i. success)"

definition world_backwards :: env where
  "world_backwards = world backwards (\<lambda>i. success)"

definition world_rejecting :: env where
  "world_rejecting = world forwards (\<lambda>i. failure)"

definition world_second_rejected :: env where
  "world_second_rejected = world forwards (\<lambda>i. if i = 0 then success else failure)"

definition world_unreachable :: env where
  "world_unreachable = world forwards (\<lambda>i. PostError ''connection refused'')"

definition world_garbled_ok :: env where
  "world_garbled_ok = world forwards (\<lambda>i. garbled 200)"

definition world_garbled_error :: env where
  "world_garbled_error = world forwards (\<lambda>i. garbled 500)"

definition world_garbled_then_rejected :: env where
  "world_garbled_then_rejected = world forwards (\<lambda>i. if i = 0 then garbled 200 else failure)"

definition world_half_decoded :: env where
  "world_half_decoded = world forwards (\<lambda>i. half_decoded)"

definition firing_two :: Request where
  "firing_two = request_of ''firing'' (Some [alert_load, alert_disk])"

definition firing_empty :: Request where
  "firing_empty = request_of ''firing'' (Some [])"

definition firing_null :: Request where
  "firing_null = request_of ''firing'' None"

definition resolved_two :: Request where
  "resolved_two = request_of ''resolved'' (Some [alert_load, alert_disk])"

definition resolved_null :: Request where
  "resolved_null = request_of ''resolved'' None"

definition request_without_data :: Request where
  "request_without_data =
     \<lparr>Body = Inr \<lparr>Data = None, GroupKey = 42\<rparr>,
      Query = [''api_key'' \<mapsto> [''key''], ''routing_key'' \<mapsto> [''team'']]\<rparr>"

section \<open>Library facts\<close>

lemma digit_value_digits: "d < 10 \<Longrightarrow> digit_value (digits ! d) = d"
proof -
  assume "d < 10"
  then have "d \<in> {0, 1, 2, 3, 4, 5, 6, 7, 8, 9}"
    by auto
  then show ?thesis
    by (auto simp: digit_value_def digits_def)
qed

lemma parse_decimal_snoc: "parse_decimal (s @ [c]) = 10 * parse_decimal s + digit_value c"
  by (simp add: parse_decimal_def)

lemma parse_decimal_decimal: "parse_decimal (decimal n) = n"
proof (induction n rule: decimal.induct)
  case (1 n)
  show ?case
  proof (cases "n < 10")
    case True
    then show ?thesis
      by (simp add: decimal.simps[of n] parse_decimal_def digit_value_digits)
  next
    case False
    with 1 show ?thesis
      by (simp add: decimal.simps[of n] parse_decimal_snoc digit_value_digits)
  qed
qed

lemma decimal_not_Nil: "decimal n \<noteq> []"
  by (subst decimal.simps) simp

lemma parse_FormatUint: "parse_decimal (FormatUint n) = unat n"
  by (simp add: FormatUint_def parse_decimal_decimal)

lemma FormatUint_not_Nil: "FormatUint n \<noteq> []"
  by (simp add: FormatUint_def decimal_not_Nil)

lemma caller_status_Fprintf: "caller_status (Fprintf s w) = caller_status w"
  by (simp add: caller_status_def Fprintf_def WriteHeader_def split: option.splits)

lemma written_Fprintf: "written (Fprintf s w) = written w @ s"
  by (simp add: Fprintf_def WriteHeader_def split: option.splits)

lemma caller_status_decode_report: "caller_status (decode_report r w) = caller_status w"
  by (simp add: decode_report_def caller_status_Fprintf split: post_result.splits option.splits)

lemma decode_report_decoded: "decoded r \<Longrightarrow> decode_report r w = w"
  by (simp add: decode_report_def decoded_def split: post_result.splits)

lemma dispatches_append: "dispatches (es @ fs) = dispatches es @ dispatches fs"
  by (induction es rule: dispatches.induct) auto

lemma dispatches_pairs:
  "dispatches (concat (map (\<lambda>k. [Sent (f k), Received (g k)]) ks)) = map f ks"
  by (induction ks) auto

section \<open>One dispatch of the firing loop\<close>

lemma firing_send_accepted_ex:
  assumes "accepted (Post env i)"
  shows "\<exists>st'.
    firing_send env a r i (Inr b) st = Next st' \<and>
    trace st' = trace st @
      [Sent \<lparr>url = endpoint a r, contentType = ''application/json'', payload = b\<rparr>,
       Received (Post env i)] \<and>
    rw st' = decode_report (Post env i) (rw st)"
  using assms
  by (cases "Post env i")
     (auto simp: firing_send_def http_Post_def accepted_def decode_report_def Let_def
           split: option.splits)

lemma firing_send_accepted:
  assumes "accepted (Post env i)"
  obtains st' where
    "firing_send env a r i (Inr b) st = Next st'"
    "trace st' = trace st @
      [Sent \<lparr>url = endpoint a r, contentType = ''application/json'', payload = b\<rparr>,
       Received (Post env i)]"
    "rw st' = decode_report (Post env i) (rw st)"
  using firing_send_accepted_ex[OF assms] by blast

lemma firing_send_refused_ex:
  assumes "\<not> accepted (Post env i)"
  shows "\<exists>st'.
    firing_send env a r i (Inr b) st = Return st' \<and>
    trace st' = trace st @
      [Sent \<lparr>url = endpoint a r, contentType = ''application/json'', payload = b\<rparr>,
       Received (Post env i)]"
  using assms
  by (cases "Post env i")
     (auto simp: firing_send_def http_Post_def accepted_def respond_def Let_def
           split: option.splits)

lemma firing_send_refused:
  assumes "\<not> accepted (Post env i)"
  obtains st' where
    "firing_send env a r i (Inr b) st = Return st'"
    "trace st' = trace st @
      [Sent \<lparr>url = endpoint a r, contentType = ''application/json'', payload = b\<rparr>,
       Received (Post env i)]"
  using firing_send_refused_ex[OF assms] by blast

section \<open>The number of dispatches\<close>

lemma attempts_le: "attempts env i n \<le> n"
  by (induction n arbitrary: i) auto

lemma attempts_all: "(\<forall>k<n. accepted (Post env (i + k))) \<Longrightarrow> attempts env i n = n"
proof (induction n arbitrary: i)
  case 0
  then show ?case by simp
next
  case (Suc n)
  have "accepted (Post env i)"
    using Suc.prems by force
  moreover have "\<forall>k<n. accepted (Post env (Suc i + k))"
    using Suc.prems by force
  ultimately show ?case
    using Suc.IH[of "Suc i"] by simp
qed

lemma attempts_first:
  "j < n \<Longrightarrow> (\<forall>k<j. accepted (Post env (i + k))) \<Longrightarrow> \<not> accepted (Post env (i + j))
     \<Longrightarrow> attempts env i n = Suc j"
proof (induction n arbitrary: i j)
  case 0
  then show ?case by simp
next
  case (Suc n)
  show ?case
  proof (cases j)
    case 0
    then show ?thesis
      using Suc.prems by simp
  next
    case (Suc j')
    have a: "accepted (Post env i)"
      using Suc.prems(2) Suc by force
    have "\<forall>k<j'. accepted (Post env (Suc i + k))"
      using Suc.prems(2) Suc by force
    moreover have "\<not> accepted (Post env (Suc i + j'))"
      using Suc.prems(3) Suc by simp
    moreover have "j' < n"
      using Suc.prems(1) Suc by simp
    ultimately have "attempts env (Suc i) n = Suc j'"
      by (rule Suc.IH[rotated -1, rotated -1])
    then show ?thesis
      using a Suc by simp
  qed
qed

lemma attempts_before: "Suc k < attempts env i n \<Longrightarrow> accepted (Post env (i + k))"
proof (induction n arbitrary: i k)
  case 0
  then show ?case by simp
next
  case (Suc n)
  then have a: "accepted (Post env i)"
    by (auto split: if_splits)
  show ?case
  proof (cases k)
    case 0
    then show ?thesis
      using a by simp
  next
    case (Suc k')
    then have "Suc k' < attempts env (Suc i) n"
      using Suc.prems a by simp
    then have "accepted (Post env (Suc i + k'))"
      by (rule Suc.IH)
    then show ?thesis
      using Suc by simp
  qed
qed

section \<open>The firing loop\<close>

lemma trace_firing_loop:
  "trace (firing_loop env a r g dn x i as st) =
     trace st @ concat (map (\<lambda>k. [Sent (post_of a r (firing_post env g dn x (i + k) (as ! k))),
                                   Received (Post env (i + k))])
                          [0..<attempts env i (length as)])"
proof (induction as arbitrary: i st)
  case Nil
  then show ?case by simp
next
  case (Cons alert as)
  show ?case
  proof (cases "accepted (Post env i)")
    case True
    then obtain st' where
      s: "firing_send env a r i (Inr (encoding (firing_post env g dn x i alert))) st = Next st'"
      and t: "trace st' = trace st @
        [Sent \<lparr>url = endpoint a r, contentType = ''application/json'',
               payload = encoding (firing_post env g dn x i alert)\<rparr>,
         Received (Post env i)]"
      by (rule firing_send_accepted)
    have u: "[Suc 0..<Suc n] = map Suc [0..<n]" for n
      by (simp add: map_Suc_upt)
    show ?thesis
      using True s t Cons.IH[of "Suc i" st']
      by (simp add: Marshal_def post_of_def upt_conv_Cons u comp_def del: upt_Suc)
  next
    case False
    then obtain st' where
      s: "firing_send env a r i (Inr (encoding (firing_post env g dn x i alert))) st = Return st'"
      and t: "trace st' = trace st @
        [Sent \<lparr>url = endpoint a r, contentType = ''application/json'',
               payload = encoding (firing_post env g dn x i alert)\<rparr>,
         Received (Post env i)]"
      by (rule firing_send_refused)
    show ?thesis
      using False s t by (simp add: Marshal_def post_of_def)
  qed
qed

lemma posts_firing_loop:
  "posts (firing_loop env a r g dn x i as st) =
     posts st @ map (\<lambda>k. post_of a r (firing_post env g dn x (i + k) (as ! k)))
                  [0..<attempts env i (length as)]"
  by (simp add: posts_def trace_firing_loop dispatches_append dispatches_pairs)

lemma firing_loop_append:
  "(\<forall>k<length xs. accepted (Post env (i + k))) \<Longrightarrow>
   firing_loop env a r g dn x i (xs @ ys) st =
     firing_loop env a r g dn x (i + length xs) ys (firing_loop env a r g dn x i xs st)"
proof (induction xs arbitrary: i st)
  case Nil
  then show ?case by simp
next
  case (Cons alert xs)
  have a: "accepted (Post env i)"
    using Cons.prems by force
  then obtain st' where
    s: "firing_send env a r i (Inr (encoding (firing_post env g dn x i alert))) st = Next st'"
    by (rule firing_send_accepted)
  have "\<forall>k<length xs. accepted (Post env (Suc i + k))"
    using Cons.prems by force
  then show ?case
    using s Cons.IH[of "Suc i" st'] by (simp add: Marshal_def)
qed

lemma status_firing_loop_accepted:
  "(\<forall>k<length as. accepted (Post env (i + k))) \<Longrightarrow>
   caller_status (rw (firing_loop env a r g dn x i as st)) = caller_status (rw st)"
proof (induction as arbitrary: i st)
  case Nil
  then show ?case by simp
next
  case (Cons alert as)
  have a: "accepted (Post env i)"
    using Cons.prems by force
  then obtain st' where
    s: "firing_send env a r i (Inr (encoding (firing_post env g dn x i alert))) st = Next st'"
    and w: "rw st' = decode_report (Post env i) (rw st)"
    by (rule firing_send_accepted)
  have "\<forall>k<length as. accepted (Post env (Suc i + k))"
    using Cons.prems by force
  then show ?case
    using s w Cons.IH[of "Suc i" st'] by (simp add: Marshal_def caller_status_decode_report)
qed

lemma rw_firing_loop_decoded:
  "(\<forall>k<length as. accepted (Post env (i + k)) \<and> decoded (Post env (i + k))) \<Longrightarrow>
   rw (firing_loop env a r g dn x i as st) = rw st"
proof (induction as arbitrary: i st)
  case Nil
  then show ?case by simp
next
  case (Cons alert as)
  have a: "accepted (Post env i)" and d: "decoded (Post env i)"
    using Cons.prems by force+
  from a obtain st' where
    s: "firing_send env a r i (Inr (encoding (firing_post env g dn x i alert))) st = Next st'"
    and w: "rw st' = decode_report (Post env i) (rw st)"
    by (rule firing_send_accepted)
  have "\<forall>k<length as. accepted (Post env (Suc i + k)) \<and> decoded (Post env (Suc i + k))"
    using Cons.prems by force
  then show ?case
    using s w d Cons.IH[of "Suc i" st'] by (simp add: Marshal_def decode_report_decoded)
qed

section \<open>The branches of the handler\<close>

lemma victorops_firing:
  assumes "inbound req wm d" and "Status d = ''firing''"
  shows "victorops env req =
     firing_loop env (apiKey_of req) (routingKey_of req) (GroupKey wm) (displayName_of env d)
       (ExternalURL d) 0 (alerts_of d) start"
  using assms
  by (simp add: victorops_def inbound_def valid_credentials_def apiKey_of_def routingKey_of_def
        displayName_of_def alerts_of_def Let_def)

lemma victorops_resolved:
  assumes "inbound req wm d" and "Status d = ''resolved''"
  shows "victorops env req =
     resolved_send env (apiKey_of req) (routingKey_of req)
       (Marshal (resolved_post env (GroupKey wm) (displayName_of env d))) start"
  using assms
  by (simp add: victorops_def inbound_def valid_credentials_def apiKey_of_def routingKey_of_def
        displayName_of_def Let_def)

lemma posts_start: "posts start = []"
  by (simp add: posts_def start_def)

lemma posts_firing:
  assumes "inbound req wm d" and "Status d = ''firing''"
  shows "posts (victorops env req) =
     map (\<lambda>k. post_of (apiKey_of req) (routingKey_of req) (firing_message env wm d k))
       [0..<attempts env 0 (length (alerts_of d))]"
  by (simp add: victorops_firing[OF assms] posts_firing_loop posts_start firing_message_def)

lemma nth_posts_firing:
  assumes "inbound req wm d" and "Status d = ''firing''"
    and "k < length (posts (victorops env req))"
  shows "posts (victorops env req) ! k =
           post_of (apiKey_of req) (routingKey_of req) (firing_message env wm d k)"
  using assms(3) by (simp add: posts_firing[OF assms(1,2)])

section \<open>The members of an encoded message\<close>

lemma member_entity_id:
  "EntityID vp \<noteq> [] \<Longrightarrow> json_member (encoding vp) ''entity_id'' = Some (JString (EntityID vp))"
  by (simp add: json_member_def encoding_def omitempty_string_def)

lemma member_message_type:
  "json_member (encoding vp) ''message_type'' = Some (JString (MessageType vp))"
  by (simp add: json_member_def encoding_def)

lemma entity_id_firing_message:
  "json_member (payload (post_of a r (firing_message env wm d k))) ''entity_id''
     = Some (JString (FormatUint (GroupKey wm)))"
  by (simp add: post_of_def firing_message_def firing_post_def member_entity_id FormatUint_not_Nil)

lemma message_type_firing_message:
  "json_member (payload (post_of a r (firing_message env wm d k))) ''message_type'' =
     Some (JString (messageType (alerts_of d ! k)))"
  by (simp add: post_of_def firing_message_def firing_post_def member_message_type)

section \<open>Facts about the concrete requests and worlds\<close>

lemmas example_defs = alert_load_def alert_disk_def group_of_def message_of_def request_of_def
  success_def failure_def garbled_def world_def forwards_def backwards_def
  world_accepting_def world_backwards_def world_rejecting_def world_second_rejected_def
  world_unreachable_def world_garbled_ok_def world_garbled_error_def
  world_garbled_then_rejected_def
  firing_two_def firing_empty_def firing_null_def resolved_two_def resolved_null_def
  request_without_data_def

lemmas handler_defs = victorops_def firing_send_def resolved_send_def http_Post_def respond_def
  Fprintf_def WriteHeader_def start_def query_param_def victoropsApikeyParam_def
  victoropsRoutingkeyParam_def range_slice_def Marshal_def Let_def

lemma inbound_request_of:
  "inbound (request_of s as) (message_of s as) (group_of s as)"
  by (simp add: inbound_def request_of_def message_of_def valid_credentials_def query_param_def
      victoropsApikeyParam_def victoropsRoutingkeyParam_def)

lemma Status_group_of: "Status (group_of s as) = s"
  by (simp add: group_of_def)

lemma alerts_of_group_of: "alerts_of (group_of s (Some as)) = as"
  by (simp add: alerts_of_def group_of_def range_slice_def)

lemma inbound_firing_two:
  "inbound firing_two (message_of ''firing'' (Some [alert_load, alert_disk]))
             (group_of ''firing'' (Some [alert_load, alert_disk]))"
  unfolding firing_two_def by (rule inbound_request_of)

lemma accepted_world_accepting: "accepted (Post world_accepting k)"
  by (simp add: world_accepting_def world_def success_def accepted_def signed_divide_int_def)

lemma length_posts_accepting_firing_two:
  "length (posts (victorops world_accepting firing_two)) = 2"
  by (simp add: posts_firing[OF inbound_firing_two Status_group_of] alerts_of_group_of
        attempts_all accepted_world_accepting)

section \<open>The claims\<close>

text \<open>
  C1, as the handler has it. For a request with status \<^verbatim>\<open>firing\<close>, \<open>N\<close> alerts and both
  credentials, the handler issues at most \<open>N\<close> dispatches: exactly \<open>N\<close> when the
  downstream service accepts each of them, and \<open>j + 1\<close> when dispatch \<open>j\<close> is the
  first that is not accepted (the loop returns there). The \<open>k\<close>-th dispatch is the POST, to the HTTPS endpoint, of the message
  built from the \<open>k\<close>-th alert, and every dispatched message has as entity identifier the
  decimal string of the group key: the string that reads back as the value of the key.
\<close>

theorem firing_dispatches:
  assumes "inbound req wm d" and "Status d = ''firing''"
  shows "length (posts (victorops env req)) \<le> length (alerts_of d)
    \<and> ((\<forall>k<length (alerts_of d). accepted (Post env k)) \<longrightarrow>
         length (posts (victorops env req)) = length (alerts_of d))
    \<and> (\<forall>j<length (alerts_of d).
         (\<forall>k<j. accepted (Post env k)) \<and> \<not> accepted (Post env j) \<longrightarrow>
         length (posts (victorops env req)) = Suc j)
    \<and> (\<forall>k<length (posts (victorops env req)).
         posts (victorops env req) ! k =
           post_of (apiKey_of req) (routingKey_of req) (firing_message env wm d k))
    \<and> (\<forall>p\<in>set (posts (victorops env req)).
         json_member (payload p) ''entity_id'' = Some (JString (FormatUint (GroupKey wm))))
    \<and> parse_decimal (FormatUint (GroupKey wm)) = unat (GroupKey wm)"
proof -
  note p = posts_firing[OF assms, of env]
  have 1: "length (posts (victorops env req)) \<le> length (alerts_of d)"
    by (simp add: p attempts_le)
  have 2: "(\<forall>k<length (alerts_of d). accepted (Post env k)) \<longrightarrow>
         length (posts (victorops env req)) = length (alerts_of d)"
    using attempts_all[of "length (alerts_of d)" env 0] by (simp add: p)
  have 3: "\<forall>k<length (posts (victorops env req)).
         posts (victorops env req) ! k =
           post_of (apiKey_of req) (routingKey_of req) (firing_message env wm d k)"
    by (simp add: p)
  have 4: "\<forall>p\<in>set (posts (victorops env req)).
         json_member (payload p) ''entity_id'' = Some (JString (FormatUint (GroupKey wm)))"
    by (auto simp: p entity_id_firing_message)
  have 5: "\<forall>j<length (alerts_of d).
         (\<forall>k<j. accepted (Post env k)) \<and> \<not> accepted (Post env j) \<longrightarrow>
         length (posts (victorops env req)) = Suc j"
    using attempts_first[of _ "length (alerts_of d)" env 0] by (simp add: p)
  show ?thesis
    using 1 2 3 4 5 parse_FormatUint by blast
qed

text \<open>
  The theorem at two alerts and a service that accepts every dispatch: two dispatches,
  the second with entity identifier \<^verbatim>\<open>42\<close>.
\<close>

theorem firing_dispatches_witness:
  "length (posts (victorops world_accepting firing_two)) = 2
   \<and> json_member (payload (posts (victorops world_accepting firing_two) ! 1)) ''entity_id''
       = Some (JString ''42'')"
proof -
  note t = firing_dispatches[OF inbound_firing_two Status_group_of, of world_accepting]
  have len: "length (posts (victorops world_accepting firing_two)) = 2"
    using t accepted_world_accepting by (simp add: alerts_of_group_of)
  have "json_member (payload (posts (victorops world_accepting firing_two) ! 1)) ''entity_id''
       = Some (JString (FormatUint (GroupKey (message_of ''firing'' (Some [alert_load, alert_disk])))))"
    using t len by (simp add: entity_id_firing_message)
  moreover have "FormatUint (GroupKey (message_of ''firing'' (Some [alert_load, alert_disk]))) = ''42''"
    by (simp add: message_of_def FormatUint_def decimal.simps digits_def)
  ultimately show ?thesis
    using len by simp
qed

text \<open>
  C1 as stated fails: with two alerts and a service that answers 500, the handler returns
  after the first dispatch.
\<close>

theorem firing_dispatches_counterexample:
  "length (posts (victorops world_rejecting firing_two)) \<noteq> length [alert_load, alert_disk]"
  by (simp add: example_defs handler_defs posts_def accepted_def signed_divide_int_def)

text \<open>
  C3. In the firing branch, the message kind of the dispatch of an alert is the value of
  the alert's label \<^verbatim>\<open>victorops_message_type\<close> when the alert has that label with a value
  that is not empty, and \<^verbatim>\<open>CRITICAL\<close> when the label is missing or empty.
\<close>

theorem firing_message_type:
  assumes "inbound req wm d" and "Status d = ''firing''"
    and "k < length (posts (victorops env req))"
  shows "(\<forall>v. Labels (alerts_of d ! k) ''victorops_message_type'' = Some v \<and> v \<noteq> [] \<longrightarrow>
            json_member (payload (posts (victorops env req) ! k)) ''message_type'' = Some (JString v))
       \<and> (Labels (alerts_of d ! k) ''victorops_message_type'' = None
            \<or> Labels (alerts_of d ! k) ''victorops_message_type'' = Some [] \<longrightarrow>
          json_member (payload (posts (victorops env req) ! k)) ''message_type''
            = Some (JString ''CRITICAL''))"
  by (auto simp: nth_posts_firing[OF assms] message_type_firing_message messageType_def index_def)

text \<open>
  The theorem at an alert labelled \<^verbatim>\<open>WARNING\<close> and at an alert without the label.
\<close>

theorem firing_message_type_witness:
  "json_member (payload (posts (victorops world_accepting firing_two) ! 0)) ''message_type''
     = Some (JString ''WARNING'')
   \<and> json_member (payload (posts (victorops world_accepting firing_two) ! 1)) ''message_type''
     = Some (JString ''CRITICAL'')"
proof -
  have k0: "0 < length (posts (victorops world_accepting firing_two))"
    and k1: "1 < length (posts (victorops world_accepting firing_two))"
    by (simp_all add: length_posts_accepting_firing_two)
  have l0: "Labels (alerts_of (group_of ''firing'' (Some [alert_load, alert_disk])) ! 0)
              ''victorops_message_type'' = Some ''WARNING''"
    by (simp add: alerts_of_group_of alert_load_def)
  have l1: "Labels (alerts_of (group_of ''firing'' (Some [alert_load, alert_disk])) ! 1)
              ''victorops_message_type'' = None"
    by (simp add: alerts_of_group_of alert_disk_def)
  from firing_message_type[OF inbound_firing_two Status_group_of k0] l0
  have "json_member (payload (posts (victorops world_accepting firing_two) ! 0)) ''message_type''
     = Some (JString ''WARNING'')"
    by simp
  moreover from firing_message_type[OF inbound_firing_two Status_group_of k1] l1
  have "json_member (payload (posts (victorops world_accepting firing_two) ! 1)) ''message_type''
     = Some (JString ''CRITICAL'')"
    by simp
  ultimately show ?thesis
    by simp
qed

text \<open>
  C10. A request with status \<^verbatim>\<open>firing\<close>, both credentials and no alert makes no
  outbound call at all, and its caller is answered 200.
\<close>

theorem firing_no_alerts:
  assumes "inbound req wm d" and "Status d = ''firing''" and "alerts_of d = []"
  shows "posts (victorops env req) = [] \<and> trace (victorops env req) = []
    \<and> answer_status (victorops env req) = 200"
  using assms(3)
  by (simp add: victorops_firing[OF assms(1,2)] posts_def start_def answer_status_def
        caller_status_def)

text \<open>The theorem at an empty list of alerts, whatever the service would answer.\<close>

theorem firing_no_alerts_witness:
  "posts (victorops world_rejecting firing_empty) = []
   \<and> answer_status (victorops world_rejecting firing_empty) = 200"
proof -
  have h: "inbound firing_empty (message_of ''firing'' (Some [])) (group_of ''firing'' (Some []))"
    unfolding firing_empty_def by (rule inbound_request_of)
  from firing_no_alerts[OF h Status_group_of alerts_of_group_of, of world_rejecting]
  show ?thesis
    by simp
qed

section \<open>The resolved branch\<close>

lemma trace_resolved_send:
  "trace (resolved_send env a r (Inr b) st) =
     trace st @ [Sent \<lparr>url = endpoint a r, contentType = ''application/json'', payload = b\<rparr>,
                 Received (Post env 0)]"
  by (cases "Post env 0")
     (auto simp: resolved_send_def http_Post_def respond_def Let_def split: option.splits)

lemma posts_resolved:
  assumes "inbound req wm d" and "Status d = ''resolved''"
  shows "posts (victorops env req) =
     [post_of (apiKey_of req) (routingKey_of req)
        (resolved_post env (GroupKey wm) (displayName_of env d))]"
  by (simp add: victorops_resolved[OF assms] Marshal_def posts_def trace_resolved_send start_def
        post_of_def)

lemma members_resolved_post:
  "json_member (encoding (resolved_post env g dn)) ''message_type'' = Some (JString ''RECOVERY'')"
  "json_member (encoding (resolved_post env g dn)) ''state_start_time'' = None"
  "json_member (encoding (resolved_post env g dn)) ''state_message''
     = Some (JString ''Entity recovered'')"
  by (simp_all add: json_member_def encoding_def resolved_post_def omitempty_string_def
        omitempty_int64_def)

lemma rw_resolved_accepted:
  assumes "inbound req wm d" and "Status d = ''resolved''"
    and "accepted (Post env 0)" and "decoded (Post env 0)"
  shows "rw (victorops env req) = rw start"
  using assms(3,4)
  by (cases "Post env 0")
     (auto simp: victorops_resolved[OF assms(1,2)] Marshal_def resolved_send_def http_Post_def
        accepted_def decoded_def Let_def)

lemma inbound_resolved_two:
  "inbound resolved_two (message_of ''resolved'' (Some [alert_load, alert_disk]))
             (group_of ''resolved'' (Some [alert_load, alert_disk]))"
  unfolding resolved_two_def by (rule inbound_request_of)

lemma inbound_resolved_null:
  "inbound resolved_null (message_of ''resolved'' None) (group_of ''resolved'' None)"
  unfolding resolved_null_def by (rule inbound_request_of)

lemma decoded_world_accepting: "decoded (Post world_accepting k)"
  by (simp add: world_accepting_def world_def success_def decoded_def)

text \<open>
  C2, as the handler has it. For a request with status \<^verbatim>\<open>resolved\<close> and both
  credentials, whatever its alerts are, the handler issues exactly one dispatch; its
  message kind is \<^verbatim>\<open>RECOVERY\<close>, it has no state-start time, and its state message is
  the fixed text \<^verbatim>\<open>Entity recovered\<close>.
\<close>

theorem resolved_dispatch:
  assumes "inbound req wm d" and "Status d = ''resolved''"
  shows "length (posts (victorops env req)) = 1
    \<and> posts (victorops env req) ! 0 =
        post_of (apiKey_of req) (routingKey_of req)
          (resolved_post env (GroupKey wm) (displayName_of env d))
    \<and> json_member (payload (posts (victorops env req) ! 0)) ''message_type''
        = Some (JString ''RECOVERY'')
    \<and> json_member (payload (posts (victorops env req) ! 0)) ''state_start_time'' = None
    \<and> json_member (payload (posts (victorops env req) ! 0)) ''state_message''
        = Some (JString ''Entity recovered'')"
  by (simp add: posts_resolved[OF assms] post_of_def members_resolved_post)

text \<open>The theorem at a resolved group of two alerts, with a service that answers 500.\<close>

theorem resolved_dispatch_witness:
  "length (posts (victorops world_rejecting resolved_two)) = 1
    \<and> json_member (payload (posts (victorops world_rejecting resolved_two) ! 0)) ''message_type''
        = Some (JString ''RECOVERY'')
    \<and> json_member (payload (posts (victorops world_rejecting resolved_two) ! 0)) ''state_start_time''
        = None"
  using resolved_dispatch[OF inbound_resolved_two Status_group_of, of world_rejecting]
  by blast

text \<open>
  C2 as stated fails on the fixed text: the state message of the dispatch is not
  \<^verbatim>\<open>entity recovered\<close> (the handler writes a capital E).
\<close>

theorem resolved_dispatch_counterexample:
  "json_member (payload (posts (victorops world_accepting resolved_two) ! 0)) ''state_message''
     \<noteq> Some (JString ''entity recovered'')"
  by (simp add: posts_resolved[OF inbound_resolved_two Status_group_of] post_of_def
        members_resolved_post)

section \<open>The check of the decoded body\<close>

text \<open>A nil slice of alerts is handled as an empty one.\<close>

lemma null_alerts_as_empty:
  "victorops env (req\<lparr>Body := Inr (wm\<lparr>Data := Some (d\<lparr>Alerts := None\<rparr>)\<rparr>)\<rparr>)
     = victorops env (req\<lparr>Body := Inr (wm\<lparr>Data := Some (d\<lparr>Alerts := Some []\<rparr>)\<rparr>)\<rparr>)"
  by (simp add: victorops_def range_slice_def Let_def)

text \<open>A firing request with a null alert collection: nothing is dispatched, the answer is 200.\<close>

lemma firing_null_alerts:
  "posts (victorops world_accepting firing_null) = []
   \<and> answer_status (victorops world_accepting firing_null) = 200"
  by (simp add: firing_null_def victorops_firing[OF inbound_request_of Status_group_of]
        alerts_of_def group_of_def range_slice_def posts_def start_def answer_status_def
        caller_status_def)

text \<open>
  C4, as the handler has it. A request whose body decodes but leaves the data of the
  message nil (the test of line 99 is \<^verbatim>\<open>wm.Data == nil\<close>) is answered 400 and nothing
  is dispatched. Such a message has no status.
\<close>

theorem missing_data_rejected:
  assumes "Body req = Inr wm" and "Data wm = None"
  shows "answer_status (victorops env req) = 400
    \<and> answer_body (victorops env req) = ''Missing fields request body''
    \<and> trace (victorops env req) = []
    \<and> posts (victorops env req) = []"
  using assms
  by (simp add: victorops_def respond_def start_def answer_status_def answer_body_def posts_def
        caller_status_def Fprintf_def WriteHeader_def)

text \<open>The theorem at a body that has the group key and nothing else.\<close>

theorem missing_data_rejected_witness:
  "answer_status (victorops world_accepting request_without_data) = 400
    \<and> posts (victorops world_accepting request_without_data) = []"
proof -
  have b: "Body request_without_data = Inr \<lparr>Data = None, GroupKey = 42\<rparr>"
    by (simp add: request_without_data_def)
  have d: "Data \<lparr>Data = None, GroupKey = 42\<rparr> = None"
    by simp
  from missing_data_rejected[OF b d, of world_accepting] show ?thesis
    by simp
qed

text \<open>
  C4 as stated fails: a request with status \<^verbatim>\<open>resolved\<close>, both credentials and a null
  alert collection is not rejected. Its recovery message is dispatched and the caller is
  answered 200.
\<close>

theorem null_alerts_counterexample:
  "answer_status (victorops world_accepting resolved_null) = 200
   \<and> length (posts (victorops world_accepting resolved_null)) = 1"
  by (simp add: posts_resolved[OF inbound_resolved_null Status_group_of] answer_status_def
      rw_resolved_accepted[OF inbound_resolved_null Status_group_of accepted_world_accepting
        decoded_world_accepting] start_def caller_status_def)

section \<open>The state message\<close>

lemma foldl_append_entry: "foldl append_entry s xs = s @ concat (map entry_line xs)"
  by (induction xs arbitrary: s) (simp_all add: append_entry_def entry_line_def)

lemma stateMessage_lines:
  "stateMessage ka kl alert x =
     concat (map entry_line (range_KV (Annotations alert) ka))
       @ concat (map entry_line (range_KV (Labels alert) kl))
       @ ''Prometheus: '' @ GeneratorURL alert @ ''\<newline>'' @ ''Alertmanager: '' @ x"
  by (simp add: stateMessage_def foldl_append_entry Let_def)

lemma stateMessage_not_Nil: "stateMessage ka kl alert x \<noteq> []"
  by (simp add: stateMessage_lines)

lemma member_state_message:
  "StateMessage vp \<noteq> [] \<Longrightarrow>
   json_member (encoding vp) ''state_message'' = Some (JString (StateMessage vp))"
  by (simp add: json_member_def encoding_def omitempty_string_def omitempty_int64_def)

lemma state_message_firing_message:
  "state_message_of (post_of a r (firing_message env wm d k)) =
     Some (JString
       (concat (map entry_line (annotation_entries env d k))
          @ concat (map entry_line (label_entries env d k))
          @ ''Prometheus: '' @ GeneratorURL (alerts_of d ! k) @ ''\<newline>''
          @ ''Alertmanager: '' @ ExternalURL d))"
proof -
  have "StateMessage (firing_message env wm d k) =
      stateMessage (Keys env (2 * k) (Annotations (alerts_of d ! k)))
        (Keys env (2 * k + 1) (Labels (alerts_of d ! k))) (alerts_of d ! k) (ExternalURL d)"
    by (simp add: firing_message_def firing_post_def)
  then show ?thesis
    by (simp add: state_message_of_def post_of_def member_state_message stateMessage_not_Nil
          stateMessage_lines annotation_entries_def label_entries_def)
qed

lemma range_KV_enumerates:
  assumes "enumerates m ks"
  shows "distinct (range_KV m ks)" and "set (range_KV m ks) = {(n, v). m n = Some v}"
proof -
  from assms have d: "distinct ks" and s: "set ks = dom m"
    by (simp_all add: enumerates_def)
  have "inj_on (\<lambda>k. (k, index m k)) (set ks)"
    by (rule inj_onI) simp
  with d show "distinct (range_KV m ks)"
    by (simp add: range_KV_def distinct_map)
  show "set (range_KV m ks) = {(n, v). m n = Some v}"
    using s by (auto simp: range_KV_def index_def dom_def split: option.splits)
qed

lemma mset_range_KV:
  assumes "enumerates m ks" and "enumerates m ks'"
  shows "mset (range_KV m ks) = mset (range_KV m ks')"
proof -
  from assms have "mset ks = mset ks'"
    by (simp add: enumerates_def set_eq_iff_mset_eq_distinct[symmetric])
  then have "mset (map (\<lambda>k. (k, index m k)) ks) = mset (map (\<lambda>k. (k, index m k)) ks')"
    by (metis mset_map)
  then show ?thesis
    by (simp add: range_KV_def)
qed

text \<open>
  C5, as the handler has it. In the firing branch, the state message of the dispatch of an
  alert is the lines \<^verbatim>\<open>key: value\<close> of the annotation entries, then those of the label
  entries, then the line \<^verbatim>\<open>Prometheus: <generatorURL>\<close>, then
  \<^verbatim>\<open>Alertmanager: <externalURL>\<close> with no line end. The entries are all the entries of
  the two maps, each once, in the order in which the runtime enumerates them.
\<close>

theorem firing_state_message:
  assumes "inbound req wm d" and "Status d = ''firing''"
    and "k < length (posts (victorops env req))"
    and "enumerates (Annotations (alerts_of d ! k)) (Keys env (2 * k) (Annotations (alerts_of d ! k)))"
    and "enumerates (Labels (alerts_of d ! k)) (Keys env (2 * k + 1) (Labels (alerts_of d ! k)))"
  shows "state_message_of (posts (victorops env req) ! k) =
      Some (JString
       (concat (map entry_line (annotation_entries env d k))
          @ concat (map entry_line (label_entries env d k))
          @ ''Prometheus: '' @ GeneratorURL (alerts_of d ! k) @ ''\<newline>''
          @ ''Alertmanager: '' @ ExternalURL d))
    \<and> distinct (annotation_entries env d k)
    \<and> set (annotation_entries env d k) = {(n, v). Annotations (alerts_of d ! k) n = Some v}
    \<and> distinct (label_entries env d k)
    \<and> set (label_entries env d k) = {(n, v). Labels (alerts_of d ! k) n = Some v}"
  using range_KV_enumerates[OF assms(4)] range_KV_enumerates[OF assms(5)]
  by (simp add: nth_posts_firing[OF assms(1,2,3)] state_message_firing_message
        annotation_entries_def label_entries_def)

lemma Keys_forwards_load:
  "Keys world_accepting n (Annotations alert_load) = [''summary'']"
  "Keys world_accepting n (Labels alert_load) = [''alertname'', ''victorops_message_type'']"
  by (simp_all add: world_accepting_def world_def forwards_def alert_load_def)

lemma Keys_backwards_load:
  "Keys world_backwards n (Annotations alert_load) = [''summary'']"
  "Keys world_backwards n (Labels alert_load) = [''victorops_message_type'', ''alertname'']"
  by (simp_all add: world_backwards_def world_def backwards_def alert_load_def)

lemma enumerates_load:
  "enumerates (Annotations alert_load) [''summary'']"
  "enumerates (Labels alert_load) [''alertname'', ''victorops_message_type'']"
  "enumerates (Labels alert_load) [''victorops_message_type'', ''alertname'']"
  by (auto simp: enumerates_def alert_load_def)

lemma length_posts_backwards_firing_two: "length (posts (victorops world_backwards firing_two)) = 2"
  by (simp add: posts_firing[OF inbound_firing_two Status_group_of] alerts_of_group_of
        attempts_all world_backwards_def world_def success_def accepted_def signed_divide_int_def)

lemma attempts_world_rejecting: "attempts world_rejecting 0 (Suc n) = 1"
  by (simp add: world_rejecting_def world_def failure_def accepted_def signed_divide_int_def)

lemma length_posts_rejecting_firing_two: "length (posts (victorops world_rejecting firing_two)) = 1"
  using attempts_world_rejecting[of 1]
  by (simp add: posts_firing[OF inbound_firing_two Status_group_of] alerts_of_group_of)

lemma ExternalURL_group_of: "ExternalURL (group_of s as) = ''http://am''"
  by (simp add: group_of_def)

lemma nth_alerts_firing_two:
  "alerts_of (group_of ''firing'' (Some [alert_load, alert_disk])) ! 0 = alert_load"
  "alerts_of (group_of ''firing'' (Some [alert_load, alert_disk])) ! Suc 0 = alert_disk"
  by (simp_all add: alerts_of_group_of)

lemma entries_accepting_load:
  "annotation_entries world_accepting (group_of ''firing'' (Some [alert_load, alert_disk])) 0
     = [(''summary'', ''load is high'')]"
  "label_entries world_accepting (group_of ''firing'' (Some [alert_load, alert_disk])) 0
     = [(''alertname'', ''HighLoad''), (''victorops_message_type'', ''WARNING'')]"
  unfolding annotation_entries_def label_entries_def nth_alerts_firing_two Keys_forwards_load
  by (simp_all add: range_KV_def index_def alert_load_def)

lemma entries_backwards_load:
  "annotation_entries world_backwards (group_of ''firing'' (Some [alert_load, alert_disk])) 0
     = [(''summary'', ''load is high'')]"
  "label_entries world_backwards (group_of ''firing'' (Some [alert_load, alert_disk])) 0
     = [(''victorops_message_type'', ''WARNING''), (''alertname'', ''HighLoad'')]"
  unfolding annotation_entries_def label_entries_def nth_alerts_firing_two Keys_backwards_load
  by (simp_all add: range_KV_def index_def alert_load_def)

lemma Keys_forwards_disk:
  "Keys world_accepting n (Annotations alert_disk) = []"
  "Keys world_accepting n (Labels alert_disk) = [''alertname'']"
  by (simp_all add: world_accepting_def world_def forwards_def alert_disk_def)

lemma entries_accepting_disk:
  "annotation_entries world_accepting (group_of ''firing'' (Some [alert_load, alert_disk])) (Suc 0) = []"
  "label_entries world_accepting (group_of ''firing'' (Some [alert_load, alert_disk])) (Suc 0)
     = [(''alertname'', ''DiskFull'')]"
  unfolding annotation_entries_def label_entries_def nth_alerts_firing_two Keys_forwards_disk
  by (simp_all add: range_KV_def index_def alert_disk_def)

lemma GeneratorURL_examples:
  "GeneratorURL alert_load = ''http://prom/load''"
  "GeneratorURL alert_disk = ''http://prom/disk''"
  by (simp_all add: alert_load_def alert_disk_def)

lemma state_message_accepting_firing_two:
  "state_message_of (posts (victorops world_accepting firing_two) ! 0) =
     Some (JString ''summary: load is high\<newline>alertname: HighLoad\<newline>victorops_message_type: WARNING\<newline>Prometheus: http://prom/load\<newline>Alertmanager: http://am'')"
  "state_message_of (posts (victorops world_accepting firing_two) ! Suc 0) =
     Some (JString ''alertname: DiskFull\<newline>Prometheus: http://prom/disk\<newline>Alertmanager: http://am'')"
  by (simp_all add: nth_posts_firing[OF inbound_firing_two Status_group_of]
        length_posts_accepting_firing_two state_message_firing_message entries_accepting_load
        entries_accepting_disk nth_alerts_firing_two GeneratorURL_examples ExternalURL_group_of
        entry_line_def)

lemma state_message_backwards_firing_two:
  "state_message_of (posts (victorops world_backwards firing_two) ! 0) =
     Some (JString ''summary: load is high\<newline>victorops_message_type: WARNING\<newline>alertname: HighLoad\<newline>Prometheus: http://prom/load\<newline>Alertmanager: http://am'')"
  by (simp add: nth_posts_firing[OF inbound_firing_two Status_group_of]
        length_posts_backwards_firing_two state_message_firing_message entries_backwards_load
        nth_alerts_firing_two GeneratorURL_examples ExternalURL_group_of entry_line_def)

text \<open>The theorem at the first alert of a group of two.\<close>

theorem firing_state_message_witness:
  "state_message_of (posts (victorops world_accepting firing_two) ! 0) =
     Some (JString ''summary: load is high\<newline>alertname: HighLoad\<newline>victorops_message_type: WARNING\<newline>Prometheus: http://prom/load\<newline>Alertmanager: http://am'')"
proof -
  have k: "0 < length (posts (victorops world_accepting firing_two))"
    by (simp add: length_posts_accepting_firing_two)
  have ea: "enumerates (Annotations (alerts_of (group_of ''firing'' (Some [alert_load, alert_disk])) ! 0))
     (Keys world_accepting (2 * 0) (Annotations (alerts_of (group_of ''firing'' (Some [alert_load, alert_disk])) ! 0)))"
    by (simp only: nth_alerts_firing_two Keys_forwards_load enumerates_load)
  have el: "enumerates (Labels (alerts_of (group_of ''firing'' (Some [alert_load, alert_disk])) ! 0))
     (Keys world_accepting (2 * 0 + 1) (Labels (alerts_of (group_of ''firing'' (Some [alert_load, alert_disk])) ! 0)))"
    by (simp only: nth_alerts_firing_two Keys_forwards_load enumerates_load)
  from firing_state_message[OF inbound_firing_two Status_group_of k ea el]
  have "state_message_of (posts (victorops world_accepting firing_two) ! 0) =
      Some (JString
       (concat (map entry_line (annotation_entries world_accepting (group_of ''firing'' (Some [alert_load, alert_disk])) 0))
          @ concat (map entry_line (label_entries world_accepting (group_of ''firing'' (Some [alert_load, alert_disk])) 0))
          @ ''Prometheus: '' @ GeneratorURL (alerts_of (group_of ''firing'' (Some [alert_load, alert_disk])) ! 0) @ ''\<newline>''
          @ ''Alertmanager: '' @ ExternalURL (group_of ''firing'' (Some [alert_load, alert_disk]))))"
    by (rule conjunct1)
  then show ?thesis
    by (simp add: entries_accepting_load nth_alerts_firing_two GeneratorURL_examples
          ExternalURL_group_of entry_line_def)
qed

text \<open>
  C5 as stated fails on the two fixed lines: for an alert with one label, no annotation and
  generator URL \<^verbatim>\<open>http://prom/disk\<close>, the state message is not the one that ends with the
  lines \<^verbatim>\<open>source: http://prom/disk\<close> and \<^verbatim>\<open>aggregator: http://am\<close>.
\<close>

theorem firing_state_message_counterexample:
  "state_message_of (posts (victorops world_accepting firing_two) ! 1) \<noteq>
     Some (JString (stateMessage_spec [] [(''alertname'', ''DiskFull'')] ''http://prom/disk'' ''http://am''))"
  by (simp add: state_message_accepting_firing_two stateMessage_spec_def entry_line_def)

text \<open>
  C9 as stated fails: two runs on the same request, each enumerating every entry of the
  maps once, dispatch different state messages when the runtime visits the two labels of
  the alert in different orders.
\<close>

theorem state_message_order_counterexample:
  "state_message_of (posts (victorops world_accepting firing_two) ! 0)
     \<noteq> state_message_of (posts (victorops world_backwards firing_two) ! 0)
   \<and> enumerates (Annotations alert_load) (Keys world_accepting 0 (Annotations alert_load))
   \<and> enumerates (Labels alert_load) (Keys world_accepting 1 (Labels alert_load))
   \<and> enumerates (Annotations alert_load) (Keys world_backwards 0 (Annotations alert_load))
   \<and> enumerates (Labels alert_load) (Keys world_backwards 1 (Labels alert_load))"
  by (simp add: state_message_accepting_firing_two state_message_backwards_firing_two
        Keys_forwards_load Keys_backwards_load enumerates_load)

text \<open>
  C9, as the handler has it. The state message is a function of the inbound message and
  of the orders in which the runtime enumerates the annotations and the labels of the
  alert. Two runs that dispatch the \<open>k\<close>-th alert and visit both maps in the same orders
  dispatch the same state message. Two runs that visit them in different orders dispatch
  messages of the same layout with the same two last lines, whose annotation entries and
  label entries are the same up to their order.
\<close>

theorem state_message_orders:
  assumes "inbound req wm d" and "Status d = ''firing''"
    and "k < length (posts (victorops env req))"
    and "k < length (posts (victorops env' req))"
  shows "state_message_of (posts (victorops env req) ! k) =
      Some (JString
       (concat (map entry_line (annotation_entries env d k))
          @ concat (map entry_line (label_entries env d k))
          @ ''Prometheus: '' @ GeneratorURL (alerts_of d ! k) @ ''\<newline>''
          @ ''Alertmanager: '' @ ExternalURL d))
    \<and> state_message_of (posts (victorops env' req) ! k) =
      Some (JString
       (concat (map entry_line (annotation_entries env' d k))
          @ concat (map entry_line (label_entries env' d k))
          @ ''Prometheus: '' @ GeneratorURL (alerts_of d ! k) @ ''\<newline>''
          @ ''Alertmanager: '' @ ExternalURL d))
    \<and> (Keys env (2 * k) (Annotations (alerts_of d ! k))
          = Keys env' (2 * k) (Annotations (alerts_of d ! k))
        \<and> Keys env (2 * k + 1) (Labels (alerts_of d ! k))
          = Keys env' (2 * k + 1) (Labels (alerts_of d ! k)) \<longrightarrow>
        state_message_of (posts (victorops env req) ! k)
          = state_message_of (posts (victorops env' req) ! k))
    \<and> (enumerates (Annotations (alerts_of d ! k)) (Keys env (2 * k) (Annotations (alerts_of d ! k)))
        \<and> enumerates (Annotations (alerts_of d ! k)) (Keys env' (2 * k) (Annotations (alerts_of d ! k)))
        \<and> enumerates (Labels (alerts_of d ! k)) (Keys env (2 * k + 1) (Labels (alerts_of d ! k)))
        \<and> enumerates (Labels (alerts_of d ! k)) (Keys env' (2 * k + 1) (Labels (alerts_of d ! k))) \<longrightarrow>
        mset (annotation_entries env d k) = mset (annotation_entries env' d k)
        \<and> mset (label_entries env d k) = mset (label_entries env' d k))"
proof -
  note m = nth_posts_firing[OF assms(1,2,3)] nth_posts_firing[OF assms(1,2,4)]
  show ?thesis
    by (auto simp: m state_message_firing_message annotation_entries_def label_entries_def
          intro: mset_range_KV)
qed

text \<open>
  The theorem at the first alert of a group of two: a run with the same orders and another
  answer of the service, and a run with the orders reversed.
\<close>

theorem state_message_orders_witness:
  "state_message_of (posts (victorops world_accepting firing_two) ! 0)
     = state_message_of (posts (victorops world_rejecting firing_two) ! 0)
   \<and> mset (label_entries world_accepting (group_of ''firing'' (Some [alert_load, alert_disk])) 0)
     = mset (label_entries world_backwards (group_of ''firing'' (Some [alert_load, alert_disk])) 0)"
proof -
  have ka: "0 < length (posts (victorops world_accepting firing_two))"
    by (simp add: length_posts_accepting_firing_two)
  have kb: "0 < length (posts (victorops world_backwards firing_two))"
    by (simp add: length_posts_backwards_firing_two)
  have kr: "0 < length (posts (victorops world_rejecting firing_two))"
    by (simp add: length_posts_rejecting_firing_two)
  have same:
    "Keys world_accepting (2 * 0) (Annotations (alerts_of (group_of ''firing'' (Some [alert_load, alert_disk])) ! 0))
       = Keys world_rejecting (2 * 0) (Annotations (alerts_of (group_of ''firing'' (Some [alert_load, alert_disk])) ! 0))"
    "Keys world_accepting (2 * 0 + 1) (Labels (alerts_of (group_of ''firing'' (Some [alert_load, alert_disk])) ! 0))
       = Keys world_rejecting (2 * 0 + 1) (Labels (alerts_of (group_of ''firing'' (Some [alert_load, alert_disk])) ! 0))"
    by (simp_all add: world_accepting_def world_rejecting_def world_def)
  have enum:
    "enumerates (Annotations (alerts_of (group_of ''firing'' (Some [alert_load, alert_disk])) ! 0))
       (Keys world_accepting (2 * 0) (Annotations (alerts_of (group_of ''firing'' (Some [alert_load, alert_disk])) ! 0)))"
    "enumerates (Annotations (alerts_of (group_of ''firing'' (Some [alert_load, alert_disk])) ! 0))
       (Keys world_backwards (2 * 0) (Annotations (alerts_of (group_of ''firing'' (Some [alert_load, alert_disk])) ! 0)))"
    "enumerates (Labels (alerts_of (group_of ''firing'' (Some [alert_load, alert_disk])) ! 0))
       (Keys world_accepting (2 * 0 + 1) (Labels (alerts_of (group_of ''firing'' (Some [alert_load, alert_disk])) ! 0)))"
    "enumerates (Labels (alerts_of (group_of ''firing'' (Some [alert_load, alert_disk])) ! 0))
       (Keys world_backwards (2 * 0 + 1) (Labels (alerts_of (group_of ''firing'' (Some [alert_load, alert_disk])) ! 0)))"
    by (simp_all only: nth_alerts_firing_two Keys_forwards_load Keys_backwards_load enumerates_load)
  from state_message_orders[OF inbound_firing_two Status_group_of ka kr] same
  have "state_message_of (posts (victorops world_accepting firing_two) ! 0)
     = state_message_of (posts (victorops world_rejecting firing_two) ! 0)"
    by blast
  moreover from state_message_orders[OF inbound_firing_two Status_group_of ka kb] enum
  have "mset (label_entries world_accepting (group_of ''firing'' (Some [alert_load, alert_disk])) 0)
     = mset (label_entries world_backwards (group_of ''firing'' (Some [alert_load, alert_disk])) 0)"
    by blast
  ultimately show ?thesis
    by simp
qed

section \<open>A dispatch that the downstream service rejects\<close>

lemma firing_send_rejected:
  assumes "Post env i = PostResponse resp" and "StatusCode resp sdiv 100 \<noteq> 2"
  shows "\<exists>st'.
    firing_send env a r i (Inr b) st = Return st' \<and>
    rw st' = Fprintf (''Unexpected status code '' @ format_int (StatusCode resp)
                       @ '' from VictorOps: '' @ Message (Decoded resp))
               (WriteHeader 502 (decode_report (Post env i) (rw st)))"
  using assms
  by (auto simp: firing_send_def http_Post_def respond_def decode_report_def Let_def
        split: option.splits)

lemma firing_loop_stop:
  assumes "\<forall>k<length xs. accepted (Post env (i + k))"
    and "\<not> accepted (Post env (i + length xs))"
  shows "\<exists>st'.
    firing_send env a r (i + length xs)
      (Inr (encoding (firing_post env g dn x (i + length xs) alert)))
      (firing_loop env a r g dn x i xs st) = Return st' \<and>
    firing_loop env a r g dn x i (xs @ alert # rest) st = st'"
proof -
  obtain st' where s:
    "firing_send env a r (i + length xs)
      (Inr (encoding (firing_post env g dn x (i + length xs) alert)))
      (firing_loop env a r g dn x i xs st) = Return st'"
    using firing_send_refused[OF assms(2)] by blast
  have "firing_loop env a r g dn x i (xs @ alert # rest) st =
      firing_loop env a r g dn x (i + length xs) (alert # rest) (firing_loop env a r g dn x i xs st)"
    using assms(1) by (rule firing_loop_append)
  also have "\<dots> = st'"
    using s by (simp add: Marshal_def)
  finally show ?thesis
    using s by blast
qed

lemma firing_loop_first_failure:
  assumes "j < length as" and "\<forall>k<j. accepted (Post env (i + k))"
    and "\<not> accepted (Post env (i + j))"
  shows "\<exists>st'.
    firing_send env a r (i + j) (Inr (encoding (firing_post env g dn x (i + j) (as ! j))))
      (firing_loop env a r g dn x i (take j as) st) = Return st' \<and>
    firing_loop env a r g dn x i as st = st'"
proof -
  have l: "length (take j as) = j"
    using assms(1) by simp
  have as: "take j as @ as ! j # drop (Suc j) as = as"
    using assms(1) by (simp add: id_take_nth_drop[symmetric])
  have "\<forall>k<length (take j as). accepted (Post env (i + k))"
    using assms(2) by simp
  moreover have "\<not> accepted (Post env (i + length (take j as)))"
    using assms(3) l by simp
  ultimately have "\<exists>st'.
    firing_send env a r (i + length (take j as))
      (Inr (encoding (firing_post env g dn x (i + length (take j as)) (as ! j))))
      (firing_loop env a r g dn x i (take j as) st) = Return st' \<and>
    firing_loop env a r g dn x i (take j as @ as ! j # drop (Suc j) as) st = st'"
    by (rule firing_loop_stop)
  then show ?thesis
    unfolding l as .
qed

lemma rw_start: "rw start = \<lparr>sent_status = None, written = []\<rparr>"
  by (simp add: start_def)

lemma answer_respond_start:
  "rw st = rw start \<Longrightarrow> sent_status (Fprintf s (WriteHeader c (rw st))) = Some c"
  "rw st = rw start \<Longrightarrow> written (Fprintf s (WriteHeader c (rw st))) = s"
  by (simp_all add: rw_start Fprintf_def WriteHeader_def)

lemma sublist_mid: "sublist m (p @ m @ s)"
  by (auto simp: sublist_def)

text \<open>
  Where the answer is 502. When the response to a dispatch decodes and its status is not
  2xx, the caller is answered 502 and the body of the answer holds the message of the
  response. In the firing branch this is the response to the \<open>j\<close>-th dispatch, the
  earlier ones accepted with responses that decoded, and the body is
  \<^verbatim>\<open>Unexpected status code <code> from VictorOps: <message>\<close>; in the resolved branch
  the body is \<^verbatim>\<open>Unexpected status code <message> from VictorOps: \<close>.
\<close>

lemma downstream_rejection:
  assumes "inbound req wm d" and "Post env j = PostResponse resp"
    and "DecodeErr resp = None" and "StatusCode resp sdiv 100 \<noteq> 2"
  shows "(Status d = ''firing'' \<and> j < length (alerts_of d)
            \<and> (\<forall>k<j. accepted (Post env k) \<and> decoded (Post env k)) \<longrightarrow>
          answer_status (victorops env req) = 502
          \<and> answer_body (victorops env req) =
              ''Unexpected status code '' @ format_int (StatusCode resp)
                @ '' from VictorOps: '' @ Message (Decoded resp)
          \<and> sublist (Message (Decoded resp)) (answer_body (victorops env req)))
    \<and> (Status d = ''resolved'' \<and> j = 0 \<longrightarrow>
          answer_status (victorops env req) = 502
          \<and> answer_body (victorops env req) =
              ''Unexpected status code '' @ Message (Decoded resp) @ '' from VictorOps: ''
          \<and> sublist (Message (Decoded resp)) (answer_body (victorops env req)))"
proof (intro conjI impI)
  assume f: "Status d = ''firing'' \<and> j < length (alerts_of d)
            \<and> (\<forall>k<j. accepted (Post env k) \<and> decoded (Post env k))"
  let ?a = "apiKey_of req" and ?r = "routingKey_of req" and ?g = "GroupKey wm"
  let ?dn = "displayName_of env d" and ?x = "ExternalURL d"
  let ?st = "firing_loop env ?a ?r ?g ?dn ?x 0 (take j (alerts_of d)) start"
  have na: "\<not> accepted (Post env (0 + j))"
    using assms(2,4) by (simp add: accepted_def)
  have dec: "decoded (Post env j)"
    using assms(2,3) by (simp add: decoded_def)
  from f have "\<forall>k<j. accepted (Post env (0 + k))"
    by simp
  with f na obtain st' where
    s: "firing_send env ?a ?r (0 + j)
          (Inr (encoding (firing_post env ?g ?dn ?x (0 + j) (alerts_of d ! j)))) ?st = Return st'"
    and v: "firing_loop env ?a ?r ?g ?dn ?x 0 (alerts_of d) start = st'"
    using firing_loop_first_failure[of j "alerts_of d" env 0 ?a ?r ?g ?dn ?x start] by blast
  have "\<forall>k<length (take j (alerts_of d)). accepted (Post env (0 + k)) \<and> decoded (Post env (0 + k))"
    using f by simp
  then have w: "rw ?st = rw start"
    by (rule rw_firing_loop_decoded)
  from firing_send_rejected[OF assms(2,4), of ?a ?r
      "encoding (firing_post env ?g ?dn ?x (0 + j) (alerts_of d ! j))" ?st] s
  have "rw st' = Fprintf (''Unexpected status code '' @ format_int (StatusCode resp)
                       @ '' from VictorOps: '' @ Message (Decoded resp))
               (WriteHeader 502 (decode_report (Post env j) (rw ?st)))"
    by simp
  then have r: "rw st' = Fprintf (''Unexpected status code '' @ format_int (StatusCode resp)
                       @ '' from VictorOps: '' @ Message (Decoded resp))
               (WriteHeader 502 (rw ?st))"
    by (simp add: decode_report_decoded[OF dec])
  have e: "victorops env req = st'"
    using victorops_firing[OF assms(1), of env] f v by simp
  show "answer_status (victorops env req) = 502"
    by (simp add: e answer_status_def caller_status_def r answer_respond_start[OF w])
  show b: "answer_body (victorops env req) =
              ''Unexpected status code '' @ format_int (StatusCode resp)
                @ '' from VictorOps: '' @ Message (Decoded resp)"
    by (simp add: e answer_body_def r answer_respond_start[OF w])
  show "sublist (Message (Decoded resp)) (answer_body (victorops env req))"
    unfolding b
    using sublist_mid[of "Message (Decoded resp)"
        "''Unexpected status code '' @ format_int (StatusCode resp) @ '' from VictorOps: ''" "[]"]
    by simp
next
  assume f: "Status d = ''resolved'' \<and> j = 0"
  then have p: "Post env 0 = PostResponse resp"
    using assms(2) by simp
  have e: "rw (victorops env req) =
      Fprintf (''Unexpected status code '' @ Message (Decoded resp) @ '' from VictorOps: '')
        (WriteHeader 502 (rw start))"
    using f p assms(3,4)
    by (simp add: victorops_resolved[OF assms(1)] Marshal_def resolved_send_def http_Post_def
          respond_def Let_def)
  show "answer_status (victorops env req) = 502"
    by (simp add: answer_status_def caller_status_def e answer_respond_start)
  show b: "answer_body (victorops env req) =
              ''Unexpected status code '' @ Message (Decoded resp) @ '' from VictorOps: ''"
    by (simp add: answer_body_def e answer_respond_start)
  show "sublist (Message (Decoded resp)) (answer_body (victorops env req))"
    unfolding b by (rule sublist_mid)
qed


lemma Post_second_rejected:
  "Post world_second_rejected 0 = success"
  "Post world_second_rejected (Suc 0) = PostResponse
     \<lparr>StatusCode = 500, DecodeErr = None,
      Decoded = \<lparr>Result = ''failure'', ResponseEntityID = [], Message = ''bad routing key''\<rparr>\<rparr>"
  by (simp_all add: world_second_rejected_def world_def failure_def)

lemma Post_rejecting:
  "Post world_rejecting k = PostResponse
     \<lparr>StatusCode = 500, DecodeErr = None,
      Decoded = \<lparr>Result = ''failure'', ResponseEntityID = [], Message = ''bad routing key''\<rparr>\<rparr>"
  by (simp add: world_rejecting_def world_def failure_def)

lemma accepted_success: "accepted success" and decoded_success: "decoded success"
  by (simp_all add: success_def accepted_def decoded_def signed_divide_int_def)

text \<open>
  The response 500 with message \<^verbatim>\<open>bad routing key\<close>: to the second dispatch of a
  firing group, and to the dispatch of a resolved group.
\<close>

lemma downstream_rejection_example:
  "answer_status (victorops world_second_rejected firing_two) = 502
   \<and> answer_body (victorops world_second_rejected firing_two)
       = ''Unexpected status code 500 from VictorOps: bad routing key''
   \<and> answer_status (victorops world_rejecting resolved_two) = 502
   \<and> answer_body (victorops world_rejecting resolved_two)
       = ''Unexpected status code bad routing key from VictorOps: ''"
proof -
  let ?resp = "\<lparr>StatusCode = 500, DecodeErr = None,
      Decoded = \<lparr>Result = ''failure'', ResponseEntityID = [], Message = ''bad routing key''\<rparr>\<rparr>"
  have n: "DecodeErr ?resp = None" and c: "StatusCode ?resp sdiv 100 \<noteq> 2"
    by (simp_all add: signed_divide_int_def)
  have before: "\<forall>k<Suc 0. accepted (Post world_second_rejected k) \<and> decoded (Post world_second_rejected k)"
    by (simp add: Post_second_rejected accepted_success decoded_success)
  have f500: "format_int 500 = ''500''"
    by (simp add: format_int_def decimal.simps digits_def)
  from downstream_rejection[OF inbound_firing_two Post_second_rejected(2) n c] before
  have "answer_status (victorops world_second_rejected firing_two) = 502
   \<and> answer_body (victorops world_second_rejected firing_two)
       = ''Unexpected status code 500 from VictorOps: bad routing key''"
    by (simp add: Status_group_of alerts_of_group_of f500)
  moreover from downstream_rejection[OF inbound_resolved_two Post_rejecting[of 0] n c]
  have "answer_status (victorops world_rejecting resolved_two) = 502
   \<and> answer_body (victorops world_rejecting resolved_two)
       = ''Unexpected status code bad routing key from VictorOps: ''"
    by (simp add: Status_group_of)
  ultimately show ?thesis
    by simp
qed

text \<open>
  C6. The claim is what the handler sets out to do, and the firing branch misses it. When
  the response to a dispatch has status 500 and a body that does not decode, line 177
  writes the decode error to the caller, which sends the status 200; the
  \<^verbatim>\<open>WriteHeader(502)\<close> of line 183 then changes nothing, and the caller is answered
  200. The resolved branch answers 502 to the same response. The same write makes the
  firing branch answer 200 to a response 500 that does decode, with message
  \<^verbatim>\<open>bad routing key\<close>, when the response before it was accepted with a body that did
  not decode.
\<close>

theorem rejection_answered_200:
  "answer_status (victorops world_garbled_error firing_two) = 200
   \<and> answer_body (victorops world_garbled_error firing_two)
       = ''Could not decode VictorOps response body: unexpected EOFUnexpected status code 500 from VictorOps: ''
   \<and> answer_status (victorops world_garbled_error resolved_two) = 502
   \<and> answer_status (victorops world_garbled_then_rejected firing_two) = 200
   \<and> answer_body (victorops world_garbled_then_rejected firing_two)
       = ''Could not decode VictorOps response body: unexpected EOFUnexpected status code 500 from VictorOps: bad routing key''"
proof -
  have f500: "format_int 500 = ''500''"
    by (simp add: format_int_def decimal.simps digits_def)
  have 1: "answer_status (victorops world_garbled_error firing_two) = 200"
    by (simp add: example_defs handler_defs answer_status_def caller_status_def
          signed_divide_int_def)
  have 2: "answer_body (victorops world_garbled_error firing_two)
       = ''Could not decode VictorOps response body: unexpected EOFUnexpected status code 500 from VictorOps: ''"
    by (simp add: example_defs handler_defs answer_body_def signed_divide_int_def f500)
  have 3: "answer_status (victorops world_garbled_error resolved_two) = 502"
    by (simp add: example_defs handler_defs answer_status_def caller_status_def)
  have 4: "answer_status (victorops world_garbled_then_rejected firing_two) = 200"
    by (simp add: example_defs handler_defs answer_status_def caller_status_def
          signed_divide_int_def)
  have 5: "answer_body (victorops world_garbled_then_rejected firing_two)
       = ''Could not decode VictorOps response body: unexpected EOFUnexpected status code 500 from VictorOps: bad routing key''"
    by (simp add: example_defs handler_defs answer_body_def signed_divide_int_def f500)
  show ?thesis
    using 1 2 3 4 5 by simp
qed

text \<open>
  In the resolved branch a response that does not decode is answered 502 with the decode
  error alone, also when decoding has filled in the message of the response.
\<close>

lemma resolved_half_decoded:
  "answer_body (victorops world_half_decoded resolved_two)
     = ''Could not decode VictorOps response body: cannot unmarshal number''
   \<and> \<not> sublist ''bad routing key'' (answer_body (victorops world_half_decoded resolved_two))"
proof -
  have b: "answer_body (victorops world_half_decoded resolved_two)
     = ''Could not decode VictorOps response body: cannot unmarshal number''"
    by (simp add: victorops_resolved[OF inbound_resolved_two Status_group_of] Marshal_def
        resolved_send_def http_Post_def respond_def Let_def world_half_decoded_def world_def
        half_decoded_def answer_body_def start_def Fprintf_def WriteHeader_def)
  show ?thesis
    unfolding b by (simp add: sublist_Cons_right)
qed

section \<open>A response body that does not decode\<close>

lemma attempts_more:
  "(\<forall>k<m. accepted (Post env (i + k))) \<Longrightarrow> m < n \<Longrightarrow> m < attempts env i n"
proof (induction n arbitrary: i m)
  case 0
  then show ?case by simp
next
  case (Suc n)
  show ?case
  proof (cases m)
    case 0
    then show ?thesis by simp
  next
    case (Suc m')
    have a: "accepted (Post env i)"
      using Suc.prems(1) Suc by force
    have "\<forall>k<m'. accepted (Post env (Suc i + k))"
      using Suc.prems(1) Suc by force
    moreover have "m' < n"
      using Suc.prems(2) Suc by simp
    ultimately have "m' < attempts env (Suc i) n"
      by (rule Suc.IH)
    then show ?thesis
      using a Suc by simp
  qed
qed

lemma written_WriteHeader: "written (WriteHeader c w) = written w"
  by (simp add: WriteHeader_def split: option.splits)

lemma prefix_decode_report: "prefix (written w) (written (decode_report r w))"
  by (simp add: decode_report_def written_Fprintf split: post_result.splits option.splits)

lemma prefix_firing_send:
  assumes "firing_send env a r i enc st = Next st' \<or> firing_send env a r i enc st = Return st'"
  shows "prefix (written (rw st)) (written (rw st'))"
proof (cases enc)
  case (Inl e)
  with assms show ?thesis
    by (auto simp: firing_send_def respond_def written_Fprintf written_WriteHeader)
next
  case (Inr b)
  show ?thesis
  proof (cases "Post env i")
    case (PostError e)
    with assms Inr show ?thesis
      by (auto simp: firing_send_def http_Post_def respond_def written_Fprintf written_WriteHeader)
  next
    case (PostResponse resp)
    with assms Inr show ?thesis
      by (cases "DecodeErr resp")
         (auto simp: firing_send_def http_Post_def respond_def written_Fprintf
            written_WriteHeader Let_def split: if_splits)
  qed
qed

lemma prefix_firing_loop:
  "prefix (written (rw st)) (written (rw (firing_loop env a r g dn x i as st)))"
proof (induction as arbitrary: i st)
  case Nil
  then show ?case by simp
next
  case (Cons alert as)
  show ?case
  proof (cases "firing_send env a r i (Marshal (firing_post env g dn x i alert)) st")
    case (Next st')
    then have "prefix (written (rw st)) (written (rw st'))"
      using prefix_firing_send by blast
    moreover have "prefix (written (rw st')) (written (rw (firing_loop env a r g dn x (Suc i) as st')))"
      by (rule Cons.IH)
    ultimately show ?thesis
      using Next by auto
  next
    case (Return st')
    then have "prefix (written (rw st)) (written (rw st'))"
      using prefix_firing_send by blast
    then show ?thesis
      using Return by simp
  qed
qed

lemma firing_loop_snoc_accepted:
  assumes "\<forall>k<length xs. accepted (Post env (i + k))"
    and "accepted (Post env (i + length xs))"
  shows "rw (firing_loop env a r g dn x i (xs @ [alert]) st) =
     decode_report (Post env (i + length xs)) (rw (firing_loop env a r g dn x i xs st))"
proof -
  obtain st' where
    s: "firing_send env a r (i + length xs)
          (Inr (encoding (firing_post env g dn x (i + length xs) alert)))
          (firing_loop env a r g dn x i xs st) = Next st'"
    and w: "rw st' = decode_report (Post env (i + length xs)) (rw (firing_loop env a r g dn x i xs st))"
    using firing_send_accepted[OF assms(2)] by blast
  have "firing_loop env a r g dn x i (xs @ [alert]) st =
      firing_loop env a r g dn x (i + length xs) [alert] (firing_loop env a r g dn x i xs st)"
    using assms(1) by (rule firing_loop_append)
  then show ?thesis
    using s w by (simp add: Marshal_def)
qed

lemma sublist_written_after:
  assumes "prefix (p @ t) w"
  shows "sublist t w"
  using assms by (auto simp: prefix_def sublist_def)

text \<open>
  C7. Let the response to the \<open>j\<close>-th dispatch have a body that does not decode.
  In the resolved branch (where \<open>j = 0\<close>) the request ends there: the caller is answered
  502 with the decode error and nothing else, whatever the status code of the response.
  In the firing branch, the earlier dispatches accepted, the request goes on: the decode
  error is written to the caller and the status code is checked. With a status 2xx the
  loop goes on to the next alert, which is dispatched if there is one; with another status
  the loop ends at this dispatch, and the answer ends with the decode error followed by the
  text for the unexpected status code.
\<close>

theorem decode_failure_paths:
  assumes "inbound req wm d" and "Post env j = PostResponse resp"
    and "DecodeErr resp = Some err"
  shows "(Status d = ''resolved'' \<and> j = 0 \<longrightarrow>
          answer_status (victorops env req) = 502
          \<and> answer_body (victorops env req) = ''Could not decode VictorOps response body: '' @ err
          \<and> length (posts (victorops env req)) = 1)
    \<and> (Status d = ''firing'' \<and> j < length (alerts_of d) \<and> (\<forall>k<j. accepted (Post env k))
          \<and> StatusCode resp sdiv 100 = 2 \<longrightarrow>
          sublist (''Could not decode VictorOps response body: '' @ err)
            (answer_body (victorops env req))
          \<and> (Suc j < length (alerts_of d) \<longrightarrow> Suc j < length (posts (victorops env req))))
    \<and> (Status d = ''firing'' \<and> j < length (alerts_of d) \<and> (\<forall>k<j. accepted (Post env k))
          \<and> StatusCode resp sdiv 100 \<noteq> 2 \<longrightarrow>
          length (posts (victorops env req)) = Suc j
          \<and> suffix (''Could not decode VictorOps response body: '' @ err
                    @ ''Unexpected status code '' @ format_int (StatusCode resp)
                    @ '' from VictorOps: '' @ Message (Decoded resp))
              (answer_body (victorops env req)))"
proof -
  let ?a = "apiKey_of req" and ?r = "routingKey_of req" and ?g = "GroupKey wm"
  let ?dn = "displayName_of env d" and ?x = "ExternalURL d"
  let ?as = "alerts_of d"
  let ?text = "''Could not decode VictorOps response body: '' @ err"
  let ?sj = "firing_loop env ?a ?r ?g ?dn ?x 0 (take j ?as) start"
  have resolved: "answer_status (victorops env req) = 502
      \<and> answer_body (victorops env req) = ?text
      \<and> length (posts (victorops env req)) = 1"
    if f: "Status d = ''resolved'' \<and> j = 0"
  proof -
    from f have p: "Post env 0 = PostResponse resp"
      using assms(2) by simp
    have e: "rw (victorops env req) = Fprintf ?text (WriteHeader 502 (rw start))"
      using f p assms(3)
      by (simp add: victorops_resolved[OF assms(1)] Marshal_def resolved_send_def http_Post_def
            respond_def Let_def)
    have "answer_status (victorops env req) = 502"
      by (simp add: answer_status_def caller_status_def e answer_respond_start)
    moreover have "answer_body (victorops env req) = ?text"
      by (simp add: answer_body_def e answer_respond_start)
    moreover have "length (posts (victorops env req)) = 1"
      using f by (simp add: posts_resolved[OF assms(1)])
    ultimately show ?thesis
      by simp
  qed
  have goes_on: "sublist ?text (answer_body (victorops env req))
      \<and> (Suc j < length ?as \<longrightarrow> Suc j < length (posts (victorops env req)))"
    if f: "Status d = ''firing'' \<and> j < length ?as \<and> (\<forall>k<j. accepted (Post env k))
          \<and> StatusCode resp sdiv 100 = 2"
  proof -
    let ?sj1 = "firing_loop env ?a ?r ?g ?dn ?x 0 (take (Suc j) ?as) start"
    have aj: "accepted (Post env j)"
      using f assms(2) by (simp add: accepted_def)
    have upto: "\<forall>k<Suc j. accepted (Post env (0 + k))"
      using f aj by (auto simp: less_Suc_eq)
    have before: "\<forall>k<length (take j ?as). accepted (Post env (0 + k))"
      using f by simp
    have lj: "length (take j ?as) = j" and l1: "length (take (Suc j) ?as) = Suc j"
      using f by simp_all
    have snoc: "take (Suc j) ?as = take j ?as @ [?as ! j]"
      using f by (simp add: take_Suc_conv_app_nth)
    have "rw ?sj1 = decode_report (Post env (0 + length (take j ?as))) (rw ?sj)"
      unfolding snoc using before aj lj
      by (intro firing_loop_snoc_accepted) simp_all
    then have w1: "written (rw ?sj1) = written (rw ?sj) @ ?text"
      using assms(2,3) lj by (simp add: decode_report_def written_Fprintf)
    have "firing_loop env ?a ?r ?g ?dn ?x 0 (take (Suc j) ?as @ drop (Suc j) ?as) start =
        firing_loop env ?a ?r ?g ?dn ?x (0 + length (take (Suc j) ?as)) (drop (Suc j) ?as) ?sj1"
      using upto l1 by (intro firing_loop_append) simp
    then have whole: "victorops env req =
        firing_loop env ?a ?r ?g ?dn ?x (Suc j) (drop (Suc j) ?as) ?sj1"
      using f l1 by (simp add: victorops_firing[OF assms(1)])
    have "prefix (written (rw ?sj1)) (answer_body (victorops env req))"
      unfolding answer_body_def whole by (rule prefix_firing_loop)
    then have "sublist ?text (answer_body (victorops env req))"
      unfolding w1 by (rule sublist_written_after)
    moreover have "Suc j < length ?as \<longrightarrow> Suc j < length (posts (victorops env req))"
      using attempts_more[of "Suc j" env 0 "length ?as"] upto f
      by (simp add: posts_firing[OF assms(1)])
    ultimately show ?thesis
      by simp
  qed
  have stops: "length (posts (victorops env req)) = Suc j
      \<and> suffix (''Could not decode VictorOps response body: '' @ err
                    @ ''Unexpected status code '' @ format_int (StatusCode resp)
                    @ '' from VictorOps: '' @ Message (Decoded resp))
              (answer_body (victorops env req))"
    if f: "Status d = ''firing'' \<and> j < length ?as \<and> (\<forall>k<j. accepted (Post env k))
          \<and> StatusCode resp sdiv 100 \<noteq> 2"
  proof -
    have c: "StatusCode resp sdiv 100 \<noteq> 2"
      using f by simp
    have na: "\<not> accepted (Post env (0 + j))"
      using assms(2) f by (simp add: accepted_def)
    from f have b: "\<forall>k<j. accepted (Post env (0 + k))"
      by simp
    with f na obtain st' where
      s: "firing_send env ?a ?r (0 + j)
            (Inr (encoding (firing_post env ?g ?dn ?x (0 + j) (?as ! j)))) ?sj = Return st'"
      and v: "firing_loop env ?a ?r ?g ?dn ?x 0 ?as start = st'"
      using firing_loop_first_failure[of j ?as env 0 ?a ?r ?g ?dn ?x start] by blast
    from firing_send_rejected[OF assms(2) c, of ?a ?r
        "encoding (firing_post env ?g ?dn ?x (0 + j) (?as ! j))" ?sj] s
    have "rw st' = Fprintf (''Unexpected status code '' @ format_int (StatusCode resp)
                         @ '' from VictorOps: '' @ Message (Decoded resp))
                 (WriteHeader 502 (decode_report (Post env j) (rw ?sj)))"
      by simp
    then have "written (rw st') = written (rw ?sj) @ ?text
        @ ''Unexpected status code '' @ format_int (StatusCode resp)
        @ '' from VictorOps: '' @ Message (Decoded resp)"
      using assms(2,3) by (simp add: written_Fprintf written_WriteHeader decode_report_def)
    moreover have e: "victorops env req = st'"
      using victorops_firing[OF assms(1), of env] f v by simp
    ultimately have "suffix (''Could not decode VictorOps response body: '' @ err
                      @ ''Unexpected status code '' @ format_int (StatusCode resp)
                      @ '' from VictorOps: '' @ Message (Decoded resp))
                (answer_body (victorops env req))"
      by (simp add: answer_body_def suffix_def)
    moreover have "length (posts (victorops env req)) = Suc j"
      using attempts_first[of j "length ?as" env 0] f na b
      by (simp add: posts_firing[OF assms(1)])
    ultimately show ?thesis
      by simp
  qed
  show ?thesis
    using resolved goes_on stops by blast
qed


lemma Post_garbled:
  "Post world_garbled_ok k = PostResponse
     \<lparr>StatusCode = 200, DecodeErr = Some ''unexpected EOF'',
      Decoded = \<lparr>Result = [], ResponseEntityID = [], Message = []\<rparr>\<rparr>"
  "Post world_garbled_error k = PostResponse
     \<lparr>StatusCode = 500, DecodeErr = Some ''unexpected EOF'',
      Decoded = \<lparr>Result = [], ResponseEntityID = [], Message = []\<rparr>\<rparr>"
  by (simp_all add: world_garbled_ok_def world_garbled_error_def world_def garbled_def)

text \<open>
  The theorem at a body that does not decode under a status 200, for a resolved group and
  for a firing group of two alerts, and under a status 500 for the firing group.
\<close>

theorem decode_failure_paths_witness:
  "answer_status (victorops world_garbled_ok resolved_two) = 502
   \<and> 1 < length (posts (victorops world_garbled_ok firing_two))
   \<and> length (posts (victorops world_garbled_error firing_two)) = 1"
proof -
  let ?ok = "\<lparr>StatusCode = 200, DecodeErr = Some ''unexpected EOF'',
      Decoded = \<lparr>Result = [], ResponseEntityID = [], Message = []\<rparr>\<rparr>"
  let ?error = "\<lparr>StatusCode = 500, DecodeErr = Some ''unexpected EOF'',
      Decoded = \<lparr>Result = [], ResponseEntityID = [], Message = []\<rparr>\<rparr>"
  have e: "DecodeErr ?ok = Some ''unexpected EOF''" "DecodeErr ?error = Some ''unexpected EOF''"
    by simp_all
  have c: "StatusCode ?ok sdiv 100 = 2" "StatusCode ?error sdiv 100 \<noteq> 2"
    by (simp_all add: signed_divide_int_def)
  from decode_failure_paths[OF inbound_resolved_two Post_garbled(1)[of 0] e(1)]
  have "answer_status (victorops world_garbled_ok resolved_two) = 502"
    by (simp add: Status_group_of)
  moreover from decode_failure_paths[OF inbound_firing_two Post_garbled(1)[of 0] e(1)] c(1)
  have "1 < length (posts (victorops world_garbled_ok firing_two))"
    by (simp add: Status_group_of alerts_of_group_of)
  moreover from decode_failure_paths[OF inbound_firing_two Post_garbled(2)[of 0] e(2)] c(2)
  have "length (posts (victorops world_garbled_error firing_two)) = 1"
    by (simp add: Status_group_of alerts_of_group_of)
  ultimately show ?thesis
    by simp
qed

section \<open>The order of the dispatches\<close>

lemma not_accepted_iff:
  "\<not> accepted r \<longleftrightarrow>
     (\<exists>e. r = PostError e) \<or> (\<exists>resp. r = PostResponse resp \<and> StatusCode resp sdiv 100 \<noteq> 2)"
  by (cases r) (simp_all add: accepted_def)

lemma trace_firing:
  assumes "inbound req wm d" and "Status d = ''firing''"
  shows "trace (victorops env req) =
     concat (map (\<lambda>k. [Sent (posts (victorops env req) ! k), Received (Post env k)])
               [0..<length (posts (victorops env req))])"
proof -
  let ?f = "\<lambda>k. post_of (apiKey_of req) (routingKey_of req) (firing_message env wm d k)"
  let ?n = "attempts env 0 (length (alerts_of d))"
  have p: "posts (victorops env req) = map ?f [0..<?n]"
    by (rule posts_firing[OF assms])
  have t: "trace (victorops env req) =
      concat (map (\<lambda>k. [Sent (?f k), Received (Post env k)]) [0..<?n])"
    by (simp add: victorops_firing[OF assms] trace_firing_loop start_def firing_message_def)
  have m: "map (\<lambda>k. [Sent (?f k), Received (Post env k)]) [0..<?n] =
      map (\<lambda>k. [Sent (map ?f [0..<?n] ! k), Received (Post env k)]) [0..<?n]"
    by (rule map_cong) simp_all
  have len: "length (map ?f [0..<?n]) = ?n"
    by simp
  show ?thesis
    by (simp only: t p len m)
qed

text \<open>
  C8. In the firing branch the events of a request are, dispatch after dispatch, the
  request that leaves and then its outcome: no dispatch starts before the outcome of the
  one before is there, and it starts only if that outcome was an accepted one. At the
  first dispatch that fails, by a transport error or by a response whose status is not
  2xx, the dispatches end: there are \<open>j + 1\<close> of them when the failure is that of
  dispatch \<open>j\<close>. A failure of the encoding ends the request as well, with no dispatch
  (the encoder of the model never fails, as the one of the library for this message).
\<close>

theorem firing_sequential:
  assumes "inbound req wm d" and "Status d = ''firing''"
  shows "trace (victorops env req) =
       concat (map (\<lambda>k. [Sent (posts (victorops env req) ! k), Received (Post env k)])
                 [0..<length (posts (victorops env req))])
    \<and> (\<forall>k. Suc k < length (posts (victorops env req)) \<longrightarrow> accepted (Post env k))
    \<and> (\<forall>j<length (alerts_of d).
          (\<forall>k<j. accepted (Post env k))
          \<and> ((\<exists>e. Post env j = PostError e)
              \<or> (\<exists>resp. Post env j = PostResponse resp \<and> StatusCode resp sdiv 100 \<noteq> 2)) \<longrightarrow>
          length (posts (victorops env req)) = Suc j)
    \<and> (\<forall>i err st. \<exists>st'.
          firing_send env (apiKey_of req) (routingKey_of req) i (Inl err) st = Return st'
          \<and> trace st' = trace st)"
proof -
  have n: "length (posts (victorops env req)) = attempts env 0 (length (alerts_of d))"
    by (simp add: posts_firing[OF assms])
  have 1: "\<forall>k. Suc k < length (posts (victorops env req)) \<longrightarrow> accepted (Post env k)"
    using attempts_before[of _ env 0 "length (alerts_of d)"] by (simp add: n)
  have 2: "\<forall>j<length (alerts_of d).
          (\<forall>k<j. accepted (Post env k))
          \<and> ((\<exists>e. Post env j = PostError e)
              \<or> (\<exists>resp. Post env j = PostResponse resp \<and> StatusCode resp sdiv 100 \<noteq> 2)) \<longrightarrow>
          length (posts (victorops env req)) = Suc j"
    using attempts_first[of _ "length (alerts_of d)" env 0]
    by (simp add: n not_accepted_iff[symmetric])
  have 3: "\<forall>i err st. \<exists>st'.
          firing_send env (apiKey_of req) (routingKey_of req) i (Inl err) st = Return st'
          \<and> trace st' = trace st"
    by (simp add: firing_send_def respond_def)
  show ?thesis
    using trace_firing[OF assms, of env] 1 2 3 by blast
qed

lemma Post_unreachable: "Post world_unreachable k = PostError ''connection refused''"
  by (simp add: world_unreachable_def world_def)

text \<open>
  The theorem at two alerts, with a service that cannot be reached and with one that
  answers 500: one dispatch each, and the trace of the first run.
\<close>

theorem firing_sequential_witness:
  "length (posts (victorops world_unreachable firing_two)) = 1
   \<and> length (posts (victorops world_rejecting firing_two)) = 1
   \<and> trace (victorops world_unreachable firing_two) =
       [Sent (posts (victorops world_unreachable firing_two) ! 0),
        Received (PostError ''connection refused'')]"
proof -
  note u = firing_sequential[OF inbound_firing_two Status_group_of, of world_unreachable]
  note r = firing_sequential[OF inbound_firing_two Status_group_of, of world_rejecting]
  have c: "StatusCode \<lparr>StatusCode = 500, DecodeErr = None,
      Decoded = \<lparr>Result = ''failure'', ResponseEntityID = [], Message = ''bad routing key''\<rparr>\<rparr>
      sdiv 100 \<noteq> 2"
    by (simp add: signed_divide_int_def)
  have lu: "length (posts (victorops world_unreachable firing_two)) = 1"
    using u Post_unreachable[of 0] by (simp add: alerts_of_group_of)
  have lr: "length (posts (victorops world_rejecting firing_two)) = 1"
    using r Post_rejecting[of 0] c by (simp add: alerts_of_group_of)
  have "trace (victorops world_unreachable firing_two) =
       concat (map (\<lambda>k. [Sent (posts (victorops world_unreachable firing_two) ! k),
                          Received (Post world_unreachable k)])
                 [0..<length (posts (victorops world_unreachable firing_two))])"
    using u by (rule conjunct1)
  then have "trace (victorops world_unreachable firing_two) =
       [Sent (posts (victorops world_unreachable firing_two) ! 0),
        Received (PostError ''connection refused'')]"
    by (simp add: lu Post_unreachable)
  then show ?thesis
    using lu lr by simp
qed

end
